theory Spec2Isabelle
  imports Complex_Main
begin

section \<open>Fit-Friend: the pose-derived exercise analysis engine\<close>

text \<open>
  A shallow embedding of the analysis core of the repository: the live coach of
  \<^verbatim>\<open>pose_tracker.py\<close> (label smoothing, hysteresis repetition counters), the feature,
  classification and scoring functions of \<^verbatim>\<open>features.py\<close>, and the batch aggregator of
  \<^verbatim>\<open>app.py\<close>. Python floats are idealised as real numbers, Python ints as \<open>int\<close>,
  dictionaries as maps or, where insertion order matters, as association lists.
  Printing, logging and the spoken coaching messages are effects on external sinks and
  are left out; every raise of the source is a branch of the model.
\<close>

subsection \<open>Feature vectors\<close>

text \<open>A feature vector is a Python dict from feature names to numbers.\<close>

type_synonym features = "string \<rightharpoonup> real"

datatype py_error = KeyError string

text \<open>\<^verbatim>\<open>features[k]\<close> raises \<^verbatim>\<open>KeyError\<close> on a missing key; \<^verbatim>\<open>features.get(k, d)\<close> does not.\<close>

definition getitem :: "features \<Rightarrow> string \<Rightarrow> py_error + real" where
  "getitem f k = (case f k of None \<Rightarrow> Inl (KeyError k) | Some v \<Rightarrow> Inr v)"

definition get_default :: "features \<Rightarrow> string \<Rightarrow> real \<Rightarrow> real" where
  "get_default f k d = (case f k of None \<Rightarrow> d | Some v \<Rightarrow> v)"

text \<open>Sequencing of computations that may raise: the first raise wins.\<close>

definition bindE :: "py_error + 'a \<Rightarrow> ('a \<Rightarrow> py_error + 'b) \<Rightarrow> py_error + 'b" where
  "bindE m k = (case m of Inl e \<Rightarrow> Inl e | Inr v \<Rightarrow> k v)"

text \<open>\<^verbatim>\<open>(features[k1] + features[k2]) / 2\<close>, the left subscript evaluated first.\<close>

definition avg_item :: "features \<Rightarrow> string \<Rightarrow> string \<Rightarrow> py_error + real" where
  "avg_item f k1 k2 = bindE (getitem f k1) (\<lambda>a. bindE (getitem f k2) (\<lambda>b. Inr ((a + b) / 2)))"

subsection \<open>Bounded deques and insertion-ordered tallies\<close>

text \<open>\<^verbatim>\<open>deque(maxlen=n).append(x)\<close>: the oldest entry is dropped once the deque is full.\<close>

definition deque_append :: "nat \<Rightarrow> 'a list \<Rightarrow> 'a \<Rightarrow> 'a list" where
  "deque_append maxlen d x = drop (length d + 1 - maxlen) (d @ [x])"

text \<open>
  \<^verbatim>\<open>counts[k] = counts.get(k, 0) + 1\<close> on a dict, which keeps its keys in insertion order.
\<close>

fun bump :: "(string \<times> nat) list \<Rightarrow> string \<Rightarrow> (string \<times> nat) list" where
  "bump [] k = [(k, 1)]"
| "bump ((k', c) # kvs) k = (if k' = k then (k', c + 1) # kvs else (k', c) # bump kvs k)"

definition tally :: "string list \<Rightarrow> (string \<times> nat) list" where
  "tally xs = foldl bump [] xs"

text \<open>
  \<^verbatim>\<open>max(counts, key=counts.get)\<close>: the first key, in iteration order, whose count is
  maximal (a later key replaces the best one only when strictly greater). On an empty
  dict \<^verbatim>\<open>max\<close> raises; that is the value \<open>None\<close> here.
\<close>

definition later_if_greater :: "string \<times> nat \<Rightarrow> string \<times> nat \<Rightarrow> string \<times> nat" where
  "later_if_greater best kv = (if snd kv > snd best then kv else best)"

definition max_by_count :: "(string \<times> nat) list \<Rightarrow> (string \<times> nat) option" where
  "max_by_count kvs = (case kvs of [] \<Rightarrow> None | kv # rest \<Rightarrow> Some (foldl later_if_greater kv rest))"

subsection \<open>The live coach: state (pose\_tracker.py, IntegratedPoseCoach.\_\_init\_\_)\<close>

record rep_state =
  threshold_low :: real
  threshold_high :: real
  current_phase :: string
  last_angle :: "real option"

record coach =
  current_exercise :: string
  exercise_confidence :: real
  exercise_history :: "string list"
  rep_count :: int
  rep_states :: "string \<rightharpoonup> rep_state"

definition squat_init :: rep_state where
  "squat_init = \<lparr>threshold_low = 120, threshold_high = 160,
     current_phase = ''up'', last_angle = None\<rparr>"

definition bicep_curl_init :: rep_state where
  "bicep_curl_init = \<lparr>threshold_low = 90, threshold_high = 150,
     current_phase = ''down'', last_angle = None\<rparr>"

definition push_up_init :: rep_state where
  "push_up_init = \<lparr>threshold_low = 110, threshold_high = 160,
     current_phase = ''up'', last_angle = None\<rparr>"

definition coach_init :: coach where
  "coach_init = \<lparr>current_exercise = ''unknown'', exercise_confidence = 0,
     exercise_history = [], rep_count = 0,
     rep_states = [''squat'' \<mapsto> squat_init, ''bicep_curl'' \<mapsto> bicep_curl_init,
                   ''push_up'' \<mapsto> push_up_init]\<rparr>"

subsection \<open>Label smoothing (pose\_tracker.py, lines 130--152)\<close>

text \<open>
  The confidence computed from the window: the most common label and its share of the
  window. The window holds at least five labels whenever it is consulted, so the tally
  is never empty there.
\<close>

definition window_confidence :: "string list \<Rightarrow> (string \<times> real) option" where
  "window_confidence h =
     (case max_by_count (tally h) of
        None \<Rightarrow> None
      | Some (most_common, c) \<Rightarrow> Some (most_common, real c / real (length h)))"

definition smooth_exercise_detection :: "coach \<Rightarrow> string option \<Rightarrow> coach" where
  "smooth_exercise_detection s detected =
     (let detected_exercise = (case detected of None \<Rightarrow> ''unknown'' | Some x \<Rightarrow> x);
          h = deque_append 10 (exercise_history s) detected_exercise;
          s1 = s\<lparr>exercise_history := h\<rparr>
      in if length h \<ge> 5 then
           (case window_confidence h of
              None \<Rightarrow> s1
            | Some (most_common, confidence) \<Rightarrow>
                if confidence \<ge> 6 / 10
                  then s1\<lparr>current_exercise := most_common, exercise_confidence := confidence\<rparr>
                else s1)
         else s1)"

text \<open>Feeding raw labels to the smoother, one per frame, in order.\<close>

fun feed_labels :: "coach \<Rightarrow> string option list \<Rightarrow> coach" where
  "feed_labels s [] = s"
| "feed_labels s (l # ls) = feed_labels (smooth_exercise_detection s l) ls"

text \<open>The sequence of \<open>n\<close> labels that alternates between \<open>a\<close> and \<open>b\<close>, starting with \<open>a\<close>.\<close>

definition alternating :: "nat \<Rightarrow> string \<Rightarrow> string \<Rightarrow> string option list" where
  "alternating n a b = map (\<lambda>i. Some (if even i then a else b)) [0..<n]"

text \<open>The full window of ten labels alternating between \<open>a\<close> and \<open>b\<close>.\<close>

definition alt_window :: "string \<Rightarrow> string \<Rightarrow> string list" where
  "alt_window a b = [a, b, a, b, a, b, a, b, a, b]"

subsection \<open>Hysteresis repetition counters (pose\_tracker.py, lines 154--217)\<close>

text \<open>
  Each counter receives the per-exercise state dict and the coach's rep count, mutates
  both, and is modelled as returning the pair.
\<close>

definition count_reps_squat :: "real \<Rightarrow> rep_state \<Rightarrow> int \<Rightarrow> rep_state \<times> int" where
  "count_reps_squat knee_angle state rc =
     (if current_phase state = ''up'' \<and> knee_angle < threshold_low state
        then (state\<lparr>current_phase := ''down''\<rparr>, rc)
      else if current_phase state = ''down'' \<and> knee_angle > threshold_high state
        then (state\<lparr>current_phase := ''up''\<rparr>, rc + 1)
      else (state, rc))"

definition count_reps_bicep :: "real \<Rightarrow> rep_state \<Rightarrow> int \<Rightarrow> rep_state \<times> int" where
  "count_reps_bicep elbow_angle state rc =
     (if current_phase state = ''down'' \<and> elbow_angle < threshold_low state
        then (state\<lparr>current_phase := ''up''\<rparr>, rc)
      else if current_phase state = ''up'' \<and> elbow_angle > threshold_high state
        then (state\<lparr>current_phase := ''down''\<rparr>, rc + 1)
      else (state, rc))"

definition count_reps_pushup :: "real \<Rightarrow> rep_state \<Rightarrow> int \<Rightarrow> rep_state \<times> int" where
  "count_reps_pushup elbow_angle state rc =
     (if current_phase state = ''up'' \<and> elbow_angle < threshold_low state
        then (state\<lparr>current_phase := ''down''\<rparr>, rc)
      else if current_phase state = ''down'' \<and> elbow_angle > threshold_high state
        then (state\<lparr>current_phase := ''up''\<rparr>, rc + 1)
      else (state, rc))"

text \<open>The write-back of a counter's result into the coach.\<close>

definition store_reps :: "coach \<Rightarrow> string \<Rightarrow> rep_state \<times> int \<Rightarrow> coach" where
  "store_reps s ex r = s\<lparr>rep_count := snd r, rep_states := (rep_states s)(ex \<mapsto> fst r)\<rparr>"

definition avg_of :: "features \<Rightarrow> string \<Rightarrow> string \<Rightarrow> real option" where
  "avg_of f k1 k2 =
     (case (f k1, f k2) of (Some a, Some b) \<Rightarrow> Some ((a + b) / 2) | _ \<Rightarrow> None)"

text \<open>
  \<^verbatim>\<open>update_rep_count\<close>: the membership tests guard every subscript, so the
  \<^verbatim>\<open>except (KeyError, TypeError)\<close> handler is never entered on a numeric feature vector.
\<close>

definition update_rep_count :: "coach \<Rightarrow> features \<Rightarrow> coach" where
  "update_rep_count s f =
     (case rep_states s (current_exercise s) of
        None \<Rightarrow> s
      | Some state \<Rightarrow>
          if current_exercise s = ''squat'' then
            (case avg_of f ''right_knee_angle'' ''left_knee_angle'' of
               Some avg_knee \<Rightarrow> store_reps s ''squat'' (count_reps_squat avg_knee state (rep_count s))
             | None \<Rightarrow> s)
          else if current_exercise s = ''bicep_curl'' then
            (case avg_of f ''right_elbow_angle'' ''left_elbow_angle'' of
               Some avg_elbow \<Rightarrow>
                 store_reps s ''bicep_curl'' (count_reps_bicep avg_elbow state (rep_count s))
             | None \<Rightarrow> s)
          else if current_exercise s = ''push_up'' then
            (case avg_of f ''right_elbow_angle'' ''left_elbow_angle'' of
               Some avg_elbow \<Rightarrow>
                 store_reps s ''push_up'' (count_reps_pushup avg_elbow state (rep_count s))
             | None \<Rightarrow> s)
          else s)"

text \<open>Feeding a sequence of average knee angles to the squat counter, in order.\<close>

fun feed_squat :: "real list \<Rightarrow> rep_state \<times> int \<Rightarrow> rep_state \<times> int" where
  "feed_squat [] r = r"
| "feed_squat (a # as) r = feed_squat as (count_reps_squat a (fst r) (snd r))"

text \<open>Feeding a sequence of feature vectors to the per-frame update, in order.\<close>

fun feed_frames :: "coach \<Rightarrow> features list \<Rightarrow> coach" where
  "feed_frames s [] = s"
| "feed_frames s (f # fs) = feed_frames (update_rep_count s f) fs"

subsection \<open>Joint geometry (features.py, lines 21--40)\<close>

type_synonym point = "real \<times> real"

definition vsub :: "point \<Rightarrow> point \<Rightarrow> point" where
  "vsub p q = (fst p - fst q, snd p - snd q)"

definition dot :: "point \<Rightarrow> point \<Rightarrow> real" where
  "dot p q = fst p * fst q + snd p * snd q"

definition norm2 :: "point \<Rightarrow> real" where
  "norm2 p = sqrt ((fst p)\<^sup>2 + (snd p)\<^sup>2)"

definition clip :: "real \<Rightarrow> real \<Rightarrow> real \<Rightarrow> real" where
  "clip x lo hi = min hi (max lo x)"

definition degrees :: "real \<Rightarrow> real" where
  "degrees x = x * 180 / pi"

text \<open>Rounding to the nearest integer, a tie going to the even neighbour.\<close>

definition rint :: "real \<Rightarrow> int" where
  "rint x = (let n = \<lfloor>x\<rfloor>; d = x - of_int n
             in if d < 1 / 2 then n else if d > 1 / 2 then n + 1
                else if even n then n else n + 1)"

text \<open>\<^verbatim>\<open>round(x, 2)\<close>.\<close>

definition round2 :: "real \<Rightarrow> real" where
  "round2 x = of_int (rint (x * 100)) / 100"

definition calculate_angle :: "point \<Rightarrow> point \<Rightarrow> point \<Rightarrow> real" where
  "calculate_angle a b c =
     (let ba = vsub a b; bc = vsub c b;
          norm_ba = norm2 ba; norm_bc = norm2 bc
      in if norm_ba = 0 \<or> norm_bc = 0 then 0
         else (let cosine = dot ba bc / (norm_ba * norm_bc);
                   angle = arccos (clip cosine (- 1) 1)
               in round2 (degrees angle)))"

definition calculate_distance :: "point \<Rightarrow> point \<Rightarrow> real" where
  "calculate_distance p1 p2 = sqrt ((fst p1 - fst p2)\<^sup>2 + (snd p1 - snd p2)\<^sup>2)"

subsection \<open>Exercise classification (features.py, lines 169--200)\<close>

text \<open>The four rule predicates, as the conditions of the source's if/elif chain.\<close>

definition squat_rule :: "features \<Rightarrow> real \<Rightarrow> real \<Rightarrow> bool" where
  "squat_rule f avg_knee avg_hip \<longleftrightarrow>
     avg_knee < 140 \<and> avg_hip < 130 \<and>
     get_default f ''foot_distance'' 0 > 40 \<and>
     get_default f ''spine_angle'' 180 > 160"

definition bicep_curl_rule :: "features \<Rightarrow> real \<Rightarrow> bool" where
  "bicep_curl_rule f avg_elbow \<longleftrightarrow>
     avg_elbow < 120 \<and>
     get_default f ''shoulder_hip_distance'' 0 > 100 \<and>
     get_default f ''torso_lean'' 0 < 20"

definition push_up_rule :: "features \<Rightarrow> real \<Rightarrow> bool" where
  "push_up_rule f avg_elbow \<longleftrightarrow>
     avg_elbow < 130 \<and>
     get_default f ''spine_angle'' 0 > 160 \<and>
     get_default f ''shoulder_hip_distance'' 0 < 80"

definition plank_rule :: "features \<Rightarrow> bool" where
  "plank_rule f \<longleftrightarrow>
     get_default f ''spine_angle'' 0 > 170 \<and>
     get_default f ''shoulder_hip_distance'' 0 < 60"

definition detect_exercise_type :: "features \<Rightarrow> py_error + string" where
  "detect_exercise_type f =
     bindE (avg_item f ''right_knee_angle'' ''left_knee_angle'') (\<lambda>avg_knee.
     bindE (avg_item f ''right_hip_angle'' ''left_hip_angle'') (\<lambda>avg_hip.
     bindE (avg_item f ''right_elbow_angle'' ''left_elbow_angle'') (\<lambda>avg_elbow.
       Inr (if squat_rule f avg_knee avg_hip then ''squat''
            else if bicep_curl_rule f avg_elbow then ''bicep_curl''
            else if push_up_rule f avg_elbow then ''push_up''
            else if plank_rule f then ''plank''
            else ''unknown''))))"

text \<open>The three averages the rules are evaluated on, for a vector that has all six angles.\<close>

definition avg_knee_of :: "features \<Rightarrow> real" where
  "avg_knee_of f = (the (f ''right_knee_angle'') + the (f ''left_knee_angle'')) / 2"

definition avg_hip_of :: "features \<Rightarrow> real" where
  "avg_hip_of f = (the (f ''right_hip_angle'') + the (f ''left_hip_angle'')) / 2"

definition avg_elbow_of :: "features \<Rightarrow> real" where
  "avg_elbow_of f = (the (f ''right_elbow_angle'') + the (f ''left_elbow_angle'')) / 2"

definition has_angles :: "features \<Rightarrow> bool" where
  "has_angles f \<longleftrightarrow>
     f ''right_knee_angle'' \<noteq> None \<and> f ''left_knee_angle'' \<noteq> None \<and>
     f ''right_hip_angle'' \<noteq> None \<and> f ''left_hip_angle'' \<noteq> None \<and>
     f ''right_elbow_angle'' \<noteq> None \<and> f ''left_elbow_angle'' \<noteq> None"

text \<open>How many of the four rule predicates hold on a vector.\<close>

definition rules_holding :: "features \<Rightarrow> string list" where
  "rules_holding f =
     (if squat_rule f (avg_knee_of f) (avg_hip_of f) then [''squat''] else []) @
     (if bicep_curl_rule f (avg_elbow_of f) then [''bicep_curl''] else []) @
     (if push_up_rule f (avg_elbow_of f) then [''push_up''] else []) @
     (if plank_rule f then [''plank''] else [])"

subsection \<open>Form scoring (features.py, lines 202--296)\<close>

record form_analysis =
  overall_score :: int
  issues :: "string list"
  recommendations :: "string list"

text \<open>One fired rule: the issue and the recommendation are appended, the penalty subtracted.\<close>

definition flag :: "string \<Rightarrow> string \<Rightarrow> int \<Rightarrow> form_analysis \<Rightarrow> form_analysis" where
  "flag issue recommendation penalty r =
     \<lparr>overall_score = overall_score r - penalty,
      issues = issues r @ [issue],
      recommendations = recommendations r @ [recommendation]\<rparr>"

definition flag_if :: "bool \<Rightarrow> string \<Rightarrow> string \<Rightarrow> int \<Rightarrow> form_analysis \<Rightarrow> form_analysis" where
  "flag_if c issue recommendation penalty r = (if c then flag issue recommendation penalty r else r)"

definition squat_form :: "features \<Rightarrow> form_analysis \<Rightarrow> py_error + form_analysis" where
  "squat_form f r0 =
     bindE (avg_item f ''right_knee_angle'' ''left_knee_angle'') (\<lambda>avg_knee.
       let r1 = (if avg_knee < 60
                   then flag ''Squatting too deep - risk of knee injury''
                          ''Don't go below parallel (90 degrees)'' 20 r0
                 else if avg_knee > 140
                   then flag ''Not squatting deep enough''
                          ''Go deeper until thighs are parallel'' 15 r0
                 else r0)
       in bindE (avg_item f ''right_hip_angle'' ''left_hip_angle'') (\<lambda>avg_hip.
            let r2 = flag_if (avg_hip < 60) ''Hips not hinging properly''
                       ''Push hips back more, imagine sitting in a chair'' 20 r1;
                r3 = flag_if (get_default f ''torso_lean'' 0 > 30) ''Leaning forward too much''
                       ''Keep chest up and core engaged'' 15 r2;
                r4 = flag_if (get_default f ''knee_symmetry'' 0 > 15) ''Uneven knee positioning''
                       ''Focus on balanced movement'' 10 r3;
                r5 = flag_if (get_default f ''foot_distance'' 0 < 40) ''Stance too narrow''
                       ''Widen stance to shoulder width'' 10 r4;
                knee_velocity = get_default f ''right_knee_angle_velocity'' 0
            in Inr (flag_if (knee_velocity > 100) ''Moving too quickly''
                      ''Slow down for better control'' 10 r5)))"

text \<open>
  \<^verbatim>\<open>features['right_elbow_angle'] > 170 or features['left_elbow_angle'] > 170\<close>: the
  right-hand subscript is evaluated only when the left-hand test fails.
\<close>

definition elbow_overextended :: "features \<Rightarrow> py_error + bool" where
  "elbow_overextended f =
     bindE (getitem f ''right_elbow_angle'') (\<lambda>re.
       if re > 170 then Inr True
       else bindE (getitem f ''left_elbow_angle'') (\<lambda>le. Inr (le > 170)))"

definition bicep_curl_form :: "features \<Rightarrow> form_analysis \<Rightarrow> py_error + form_analysis" where
  "bicep_curl_form f r0 =
     bindE (elbow_overextended f) (\<lambda>over.
       let r1 = flag_if over ''Elbow overextending'' ''Don't fully lock out elbows'' 10 r0;
           elbow_velocity = get_default f ''right_elbow_angle_velocity'' 0;
           r2 = flag_if (elbow_velocity > 150) ''Using momentum - swinging weights''
                  ''Use controlled movements'' 20 r1
       in Inr (flag_if (get_default f ''torso_lean'' 0 > 15) ''Leaning too much''
                 ''Stand straight, engage core'' 10 r2))"

definition push_up_form :: "features \<Rightarrow> form_analysis \<Rightarrow> py_error + form_analysis" where
  "push_up_form f r0 =
     bindE (avg_item f ''right_elbow_angle'' ''left_elbow_angle'') (\<lambda>avg_elbow.
       let r1 = flag_if (avg_elbow > 160) ''Not going down far enough''
                  ''Lower until chest nearly touches ground'' 15 r0
       in Inr (flag_if (get_default f ''spine_angle'' 180 < 160) ''Hips sagging or piking''
                 ''Maintain straight line from head to heels'' 20 r1))"

definition analyze_form_quality :: "string \<Rightarrow> features \<Rightarrow> py_error + form_analysis" where
  "analyze_form_quality exercise f =
     (let r0 = \<lparr>overall_score = 100, issues = [], recommendations = []\<rparr>
      in bindE (if exercise = ''squat'' then squat_form f r0
                else if exercise = ''bicep_curl'' then bicep_curl_form f r0
                else if exercise = ''push_up'' then push_up_form f r0
                else Inr r0) (\<lambda>r.
           let r' = flag_if (get_default f ''min_visibility'' 1 < 7 / 10)
                      ''Poor camera angle or lighting''
                      ''Improve camera position and lighting'' 5 r
           in Inr (r'\<lparr>overall_score := max (overall_score r') 0\<rparr>)))"

subsection \<open>Temporal features and the extractor's angle history (features.py, lines 16--19, 42--43, 144--167)\<close>

text \<open>
  The angle history is a field of the module-level \<^verbatim>\<open>feature_extractor\<close> object, created
  once when the module is loaded; \<^verbatim>\<open>calculate_temporal_features\<close> appends to it and
  nothing in the repository clears it. It is threaded through the model explicitly.
\<close>

type_synonym angle_dict = "(string \<times> real) list"

type_synonym angle_history = "angle_dict list"

definition joint_temporal :: "angle_dict \<Rightarrow> string \<times> real \<Rightarrow> (string \<times> real) list" where
  "joint_temporal prev_angles jv =
     (case map_of prev_angles (fst jv) of
        None \<Rightarrow> []
      | Some p \<Rightarrow>
          (let velocity = \<bar>snd jv - p\<bar> / (1 / 30)
           in [(fst jv @ ''_velocity'', velocity),
               (fst jv @ ''_is_fast'', if velocity > 100 then 1 else 0)]))"

definition calculate_temporal_features ::
    "angle_history \<Rightarrow> angle_dict \<Rightarrow> angle_history \<times> (string \<times> real) list" where
  "calculate_temporal_features hist current_angles =
     (let hist' = deque_append 30 hist current_angles
      in (hist',
          if length hist' \<ge> 2
            then concat (map (joint_temporal (hist' ! (length hist' - 2))) current_angles)
          else []))"

subsection \<open>Feature extraction (features.py, lines 50--142)\<close>

text \<open>
  The numbers that lines 82--130 compute from one frame's landmarks alone: the six joint
  angles and the nine alignment and visibility measures. They are a pure function of the
  frame, and a frame is given by them.
\<close>

record geometry =
  right_knee_angle :: real
  left_knee_angle :: real
  right_hip_angle :: real
  left_hip_angle :: real
  right_elbow_angle :: real
  left_elbow_angle :: real
  spine_angle :: real
  knee_symmetry :: real
  hip_symmetry :: real
  shoulder_symmetry :: real
  foot_distance :: real
  torso_lean :: real
  shoulder_hip_distance :: real
  avg_visibility :: real
  min_visibility :: real

definition angles_of :: "geometry \<Rightarrow> angle_dict" where
  "angles_of g =
     [(''right_knee_angle'', right_knee_angle g), (''left_knee_angle'', left_knee_angle g),
      (''right_hip_angle'', right_hip_angle g), (''left_hip_angle'', left_hip_angle g),
      (''right_elbow_angle'', right_elbow_angle g), (''left_elbow_angle'', left_elbow_angle g)]"

definition enhanced_features_of :: "geometry \<Rightarrow> (string \<times> real) list" where
  "enhanced_features_of g =
     [(''spine_angle'', spine_angle g), (''knee_symmetry'', knee_symmetry g),
      (''hip_symmetry'', hip_symmetry g), (''shoulder_symmetry'', shoulder_symmetry g),
      (''foot_distance'', foot_distance g), (''torso_lean'', torso_lean g),
      (''shoulder_hip_distance'', shoulder_hip_distance g),
      (''avg_visibility'', avg_visibility g), (''min_visibility'', min_visibility g)]"

text \<open>\<^verbatim>\<open>{**angles, **enhanced_features, **temporal_features}\<close>: a later dict overrides.\<close>

definition extract_comprehensive_features ::
    "angle_history \<Rightarrow> geometry \<Rightarrow> angle_history \<times> features" where
  "extract_comprehensive_features hist g =
     (let angles = angles_of g;
          enhanced_features = enhanced_features_of g;
          (hist', temporal_features) = calculate_temporal_features hist angles
      in (hist', map_of angles ++ map_of enhanced_features ++ map_of temporal_features))"

subsection \<open>Batch repetition estimate (app.py, lines 173--190)\<close>

definition np_mean :: "int list \<Rightarrow> real" where
  "np_mean xs = of_int (sum_list xs) / of_nat (length xs)"

definition np_std :: "int list \<Rightarrow> real" where
  "np_std xs = sqrt (sum_list (map (\<lambda>x. \<bar>of_int x - np_mean xs\<bar>\<^sup>2) xs) / of_nat (length xs))"

text \<open>The loop, on its two variables \<^verbatim>\<open>low_form_periods\<close> and \<^verbatim>\<open>in_low_period\<close>.\<close>

fun low_form_loop :: "real \<Rightarrow> int list \<Rightarrow> nat \<times> bool \<Rightarrow> nat \<times> bool" where
  "low_form_loop threshold [] st = st"
| "low_form_loop threshold (score # rest) st =
     low_form_loop threshold rest
       (if of_int score < threshold \<and> \<not> snd st then (fst st + 1, True)
        else if of_int score \<ge> threshold then (fst st, False)
        else st)"

definition estimate_rep_count :: "int list \<Rightarrow> int" where
  "estimate_rep_count form_scores =
     (if length form_scores < 10 then 0
      else (let threshold = np_mean form_scores - np_std form_scores;
                low_form_periods = fst (low_form_loop threshold form_scores (0, False))
            in max 0 (int low_form_periods - 1)))"


subsection \<open>Session aggregation (app.py, lines 46--171)\<close>

text \<open>
  A video as the capture object presents it: whether it opened, its nominal frame rate
  and frame count, and its frames in order. A frame is \<open>None\<close> when the pose provider
  reports no landmarks for it (or the extraction fails before it touches the angle
  history), and otherwise the geometry extracted from its landmarks.
\<close>

record video =
  is_opened :: bool
  cap_fps :: real
  cap_frame_count :: int
  cap_frames :: "geometry option list"

record key_frame =
  frame :: nat
  score :: int
  top_issues :: "string list"

text \<open>The accumulators of the frame loop.\<close>

record running =
  exercise_votes :: "(string \<times> nat) list"
  analyzed :: nat
  scores :: "int list"
  issues_seen :: "string list"
  recommendations_seen :: "string list"
  poor_frames :: "key_frame list"

text \<open>
  The record handed to the result consumer. \<^verbatim>\<open>list(set(...))\<close> fixes no order of the
  deduplicated issues and recommendations, so they are sets here.
\<close>

record analysis_results =
  frames_analyzed :: nat
  exercise_detected :: string
  confidence :: real
  form_scores :: "int list"
  issues_detected :: "string set"
  session_recommendations :: "string set"
  session_rep_count :: int
  key_frames :: "key_frame list"
  session_overall_score :: int
  video_duration :: real
  fps :: real

datatype error_record =
  Could_not_open_video_file
| No_pose_landmarks_detected_in_video
| Analysis_failed py_error

definition FRAME_SKIP :: nat where
  "FRAME_SKIP = 3"

definition running_init :: running where
  "running_init = \<lparr>exercise_votes = [], analyzed = 0, scores = [], issues_seen = [],
     recommendations_seen = [], poor_frames = []\<rparr>"

text \<open>The body of the loop for one sampled frame with landmarks.\<close>

definition analyse_frame ::
    "nat \<Rightarrow> geometry \<Rightarrow> angle_history \<times> running \<Rightarrow> angle_history \<times> (py_error + running)" where
  "analyse_frame frame_count g st =
     (let (hist', features) = extract_comprehensive_features (fst st) g;
          acc = snd st
      in (hist',
          bindE (detect_exercise_type features) (\<lambda>detected_exercise.
          bindE (analyze_form_quality detected_exercise features) (\<lambda>analysis.
            Inr (acc\<lparr>exercise_votes := bump (exercise_votes acc) detected_exercise,
                     analyzed := analyzed acc + 1,
                     scores := scores acc @ [overall_score analysis],
                     issues_seen := issues_seen acc @ issues analysis,
                     recommendations_seen := recommendations_seen acc @ recommendations analysis,
                     poor_frames :=
                       (if overall_score analysis < 70
                          then poor_frames acc @
                               [\<lparr>frame = frame_count, score = overall_score analysis,
                                 top_issues = take 2 (issues analysis)\<rparr>]
                        else poor_frames acc)\<rparr>)))))"

fun process_frames ::
    "nat \<Rightarrow> geometry option list \<Rightarrow> angle_history \<times> running
       \<Rightarrow> angle_history \<times> (py_error + running)" where
  "process_frames frame_count [] st = (fst st, Inr (snd st))"
| "process_frames frame_count (fr # frs) st =
     (if frame_count mod FRAME_SKIP \<noteq> 0 then process_frames (frame_count + 1) frs st
      else (case fr of
              None \<Rightarrow> process_frames (frame_count + 1) frs st
            | Some g \<Rightarrow>
                (case analyse_frame frame_count g st of
                   (hist', Inl e) \<Rightarrow> (hist', Inl e)
                 | (hist', Inr acc') \<Rightarrow> process_frames (frame_count + 1) frs (hist', acc'))))"

text \<open>\<^verbatim>\<open>int(x)\<close> on a float: truncation towards zero.\<close>

definition py_int :: "real \<Rightarrow> int" where
  "py_int x = (if 0 \<le> x then \<lfloor>x\<rfloor> else \<lceil>x\<rceil>)"

definition summarise :: "video \<Rightarrow> running \<Rightarrow> string \<times> nat \<Rightarrow> analysis_results" where
  "summarise v acc best =
     \<lparr>frames_analyzed = analyzed acc,
      exercise_detected = fst best,
      confidence = of_nat (snd best) / of_nat (sum_list (map snd (exercise_votes acc))),
      form_scores = scores acc,
      issues_detected = set (issues_seen acc),
      session_recommendations = set (recommendations_seen acc),
      session_rep_count = estimate_rep_count (scores acc),
      key_frames = poor_frames acc,
      session_overall_score =
        (if scores acc \<noteq> [] then py_int (of_int (sum_list (scores acc)) / of_nat (length (scores acc)))
         else 0),
      video_duration = (if cap_fps v > 0 then of_int (cap_frame_count v) / cap_fps v else 0),
      fps = cap_fps v\<rparr>"

text \<open>
  \<^verbatim>\<open>analyze_video\<close>, from the extractor's angle history before the run to the history
  after it and the record returned. An exception inside the run is caught by the outer
  handler and reported as an error record.
\<close>

definition analyze_video ::
    "angle_history \<Rightarrow> video \<Rightarrow> angle_history \<times> (error_record + analysis_results)" where
  "analyze_video hist v =
     (if \<not> is_opened v then (hist, Inl Could_not_open_video_file)
      else (case process_frames 0 (cap_frames v) (hist, running_init) of
              (hist', Inl e) \<Rightarrow> (hist', Inl (Analysis_failed e))
            | (hist', Inr acc) \<Rightarrow>
                (case max_by_count (exercise_votes acc) of
                   None \<Rightarrow> (hist', Inl No_pose_landmarks_detected_in_video)
                 | Some best \<Rightarrow> (hist', Inr (summarise v acc best)))))"

text \<open>
  Two runs in succession on the same video, the first from the history \<open>hist\<close>: the second
  run starts from the history the first one left behind.
\<close>

definition analyze_twice ::
    "angle_history \<Rightarrow> video \<Rightarrow> (error_record + analysis_results) \<times> (error_record + analysis_results)" where
  "analyze_twice hist v =
     (let (hist1, out1) = analyze_video hist v;
          (hist2, out2) = analyze_video hist1 v
      in (out1, out2))"

text \<open>The sampled frames of a video from which a pose was extracted.\<close>

definition classifiable_frames :: "video \<Rightarrow> nat list" where
  "classifiable_frames v =
     filter (\<lambda>i. i mod FRAME_SKIP = 0 \<and> cap_frames v ! i \<noteq> None) [0..<length (cap_frames v)]"

subsection \<open>Test vectors\<close>

text \<open>
  A squat frame on which every squat rule that can fire together fires (the two knee
  rules exclude each other; the deeper one carries the larger penalty), and the
  visibility rule as well.
\<close>

definition worst_squat :: features where
  "worst_squat = [''right_knee_angle'' \<mapsto> 50, ''left_knee_angle'' \<mapsto> 50,
     ''right_hip_angle'' \<mapsto> 50, ''left_hip_angle'' \<mapsto> 50,
     ''right_elbow_angle'' \<mapsto> 180, ''left_elbow_angle'' \<mapsto> 180,
     ''torso_lean'' \<mapsto> 40, ''knee_symmetry'' \<mapsto> 20, ''foot_distance'' \<mapsto> 30,
     ''right_knee_angle_velocity'' \<mapsto> 200, ''min_visibility'' \<mapsto> 1 / 2]"

text \<open>A horizontal, straight body with bent elbows, and a deep upright squat.\<close>

definition low_plank :: features where
  "low_plank = [''right_knee_angle'' \<mapsto> 170, ''left_knee_angle'' \<mapsto> 170,
     ''right_hip_angle'' \<mapsto> 170, ''left_hip_angle'' \<mapsto> 170,
     ''right_elbow_angle'' \<mapsto> 100, ''left_elbow_angle'' \<mapsto> 100,
     ''spine_angle'' \<mapsto> 175, ''shoulder_hip_distance'' \<mapsto> 50,
     ''foot_distance'' \<mapsto> 10, ''torso_lean'' \<mapsto> 50]"

definition deep_squat :: features where
  "deep_squat = [''right_knee_angle'' \<mapsto> 90, ''left_knee_angle'' \<mapsto> 90,
     ''right_hip_angle'' \<mapsto> 80, ''left_hip_angle'' \<mapsto> 80,
     ''right_elbow_angle'' \<mapsto> 170, ''left_elbow_angle'' \<mapsto> 170,
     ''spine_angle'' \<mapsto> 175, ''shoulder_hip_distance'' \<mapsto> 150,
     ''foot_distance'' \<mapsto> 60, ''torso_lean'' \<mapsto> 5]"


text \<open>Whether some sampled frame, counting frames from \<open>n\<close>, carries a pose.\<close>

fun sampled_pose :: "nat \<Rightarrow> geometry option list \<Rightarrow> bool" where
  "sampled_pose n [] = False"
| "sampled_pose n (fr # frs) = ((n mod FRAME_SKIP = 0 \<and> fr \<noteq> None) \<or> sampled_pose (Suc n) frs)"

text \<open>
  Two upright squat poses that differ in the knee and hip angles, and three short videos:
  one whose two sampled frames (0 and 3) show the two poses, one whose only pose is on a
  frame that is not sampled, and one without any pose.
\<close>

definition squat_low :: geometry where
  "squat_low = \<lparr>right_knee_angle = 90, left_knee_angle = 90,
     right_hip_angle = 90, left_hip_angle = 90,
     right_elbow_angle = 170, left_elbow_angle = 170,
     spine_angle = 175, knee_symmetry = 0, hip_symmetry = 0, shoulder_symmetry = 0,
     foot_distance = 60, torso_lean = 5, shoulder_hip_distance = 150,
     avg_visibility = 9 / 10, min_visibility = 9 / 10\<rparr>"

definition squat_high :: geometry where
  "squat_high = squat_low\<lparr>right_knee_angle := 130, left_knee_angle := 130,
     right_hip_angle := 120, left_hip_angle := 120\<rparr>"

definition two_squats :: video where
  "two_squats = \<lparr>is_opened = True, cap_fps = 30, cap_frame_count = 4,
     cap_frames = [Some squat_low, None, None, Some squat_high]\<rparr>"

definition pose_off_sample :: video where
  "pose_off_sample = \<lparr>is_opened = True, cap_fps = 30, cap_frame_count = 3,
     cap_frames = [None, Some squat_low, None]\<rparr>"

section \<open>Properties\<close>

subsection \<open>The live repetition counter\<close>

lemma count_reps_squat_mono: "rc \<le> snd (count_reps_squat a st rc)"
  by (simp add: count_reps_squat_def)

lemma count_reps_bicep_mono: "rc \<le> snd (count_reps_bicep a st rc)"
  by (simp add: count_reps_bicep_def)

lemma count_reps_pushup_mono: "rc \<le> snd (count_reps_pushup a st rc)"
  by (simp add: count_reps_pushup_def)

lemma update_rep_count_mono: "rep_count s \<le> rep_count (update_rep_count s f)"
  by (simp add: update_rep_count_def store_reps_def count_reps_squat_mono
        count_reps_bicep_mono count_reps_pushup_mono split: option.splits)

lemma feed_frames_mono: "rep_count s \<le> rep_count (feed_frames s fs)"
proof (induction fs arbitrary: s)
  case Nil
  show ?case by simp
next
  case (Cons f fs)
  have "rep_count s \<le> rep_count (update_rep_count s f)"
    by (rule update_rep_count_mono)
  also have "\<dots> \<le> rep_count (feed_frames (update_rep_count s f) fs)"
    by (rule Cons.IH)
  finally show ?case by simp
qed

lemma feed_frames_append: "feed_frames s (fs @ gs) = feed_frames (feed_frames s fs) gs"
  by (induction fs arbitrary: s) simp_all

text \<open>
  C1. The squat counter, from its initial state (phase "up", thresholds 120 and 160):
  the average knee angles 170, 100, 170 give one repetition and 170, 100 give none, both
  when fed to the counter directly and when fed through the per-frame update of a coach
  whose current exercise is the squat. In any state, an angle above the high threshold
  in phase "down" switches the phase to "up" and adds exactly one to the count; every
  other call leaves the count as it was.
\<close>

theorem squat_counter:
  "snd (feed_squat [170, 100, 170] (squat_init, 0)) = 1 \<and>
   snd (feed_squat [170, 100] (squat_init, 0)) = 0 \<and>
   rep_count (feed_frames (coach_init\<lparr>current_exercise := ''squat''\<rparr>)
     [[''right_knee_angle'' \<mapsto> 170, ''left_knee_angle'' \<mapsto> 170],
      [''right_knee_angle'' \<mapsto> 100, ''left_knee_angle'' \<mapsto> 100],
      [''right_knee_angle'' \<mapsto> 170, ''left_knee_angle'' \<mapsto> 170]]) = 1 \<and>
   rep_count (feed_frames (coach_init\<lparr>current_exercise := ''squat''\<rparr>)
     [[''right_knee_angle'' \<mapsto> 170, ''left_knee_angle'' \<mapsto> 170],
      [''right_knee_angle'' \<mapsto> 100, ''left_knee_angle'' \<mapsto> 100]]) = 0 \<and>
   (\<forall>a st rc. current_phase st = ''down'' \<and> a > threshold_high st \<longrightarrow>
       count_reps_squat a st rc = (st\<lparr>current_phase := ''up''\<rparr>, rc + 1)) \<and>
   (\<forall>a st rc. \<not> (current_phase st = ''down'' \<and> a > threshold_high st) \<longrightarrow>
       snd (count_reps_squat a st rc) = rc)"
  by (simp add: count_reps_squat_def squat_init_def coach_init_def update_rep_count_def
        store_reps_def avg_of_def)

theorem squat_counter_witness:
  "current_phase (squat_init\<lparr>current_phase := ''down''\<rparr>) = ''down'' \<and>
   170 > threshold_high (squat_init\<lparr>current_phase := ''down''\<rparr>) \<and>
   count_reps_squat 170 (squat_init\<lparr>current_phase := ''down''\<rparr>) 0 = (squat_init, 1) \<and>
   \<not> (current_phase squat_init = ''down'' \<and> 100 > threshold_high squat_init) \<and>
   snd (count_reps_squat 100 squat_init 0) = 0"
  using squat_counter
  by (simp add: squat_init_def)

text \<open>
  C9. The per-frame update never lowers the rep count, whatever the coach's state (and so
  whatever its current exercise) and whatever the feature vector; hence along any
  sequence of updates the count after a prefix is at most the count after a longer one.
\<close>

theorem rep_count_never_decrements:
  "rep_count s \<le> rep_count (update_rep_count s f) \<and>
   rep_count s \<le> rep_count (feed_frames s fs) \<and>
   rep_count (feed_frames s fs) \<le> rep_count (feed_frames s (fs @ gs))"
  by (simp add: update_rep_count_mono feed_frames_mono feed_frames_append)

text \<open>
  C10. When the current exercise is none of squat, bicep\_curl and push\_up, the update
  returns the coach unchanged: the rep count, every per-exercise phase state and every
  other field.
\<close>

theorem update_rep_count_noop:
  "current_exercise s \<notin> {''squat'', ''bicep_curl'', ''push_up''} \<Longrightarrow> update_rep_count s f = s"
  by (simp add: update_rep_count_def split: option.splits)

theorem update_rep_count_noop_witness:
  "current_exercise (coach_init\<lparr>current_exercise := ''plank''\<rparr>)
     \<notin> {''squat'', ''bicep_curl'', ''push_up''} \<and>
   update_rep_count (coach_init\<lparr>current_exercise := ''plank''\<rparr>)
     [''right_knee_angle'' \<mapsto> 170, ''left_knee_angle'' \<mapsto> 170]
     = coach_init\<lparr>current_exercise := ''plank''\<rparr>"
  using update_rep_count_noop [of "coach_init\<lparr>current_exercise := ''plank''\<rparr>"
      "[''right_knee_angle'' \<mapsto> 170, ''left_knee_angle'' \<mapsto> 170]"]
  by simp

subsection \<open>The form scorer\<close>

lemma flag_if_score:
  "overall_score (flag_if c i rc p r) = overall_score r - (if c then p else 0)"
  by (simp add: flag_if_def flag_def)

lemma flag_if_bounds:
  "0 \<le> p \<Longrightarrow> overall_score r - p \<le> overall_score (flag_if c i rc p r) \<and>
     overall_score (flag_if c i rc p r) \<le> overall_score r"
  by (simp add: flag_if_score)

lemma squat_form_score:
  assumes "squat_form f r0 = Inr r"
  shows "overall_score r0 - 85 \<le> overall_score r \<and> overall_score r \<le> overall_score r0"
proof -
  from assms obtain k h :: real where
    r: "r = flag_if (get_default f ''right_knee_angle_velocity'' 0 > 100) ''Moving too quickly''
              ''Slow down for better control'' 10
           (flag_if (get_default f ''foot_distance'' 0 < 40) ''Stance too narrow''
              ''Widen stance to shoulder width'' 10
           (flag_if (get_default f ''knee_symmetry'' 0 > 15) ''Uneven knee positioning''
              ''Focus on balanced movement'' 10
           (flag_if (get_default f ''torso_lean'' 0 > 30) ''Leaning forward too much''
              ''Keep chest up and core engaged'' 15
           (flag_if (h < 60) ''Hips not hinging properly''
              ''Push hips back more, imagine sitting in a chair'' 20
           (if k < 60
              then flag ''Squatting too deep - risk of knee injury''
                     ''Don't go below parallel (90 degrees)'' 20 r0
            else if k > 140
              then flag ''Not squatting deep enough''
                     ''Go deeper until thighs are parallel'' 15 r0
            else r0)))))"
    unfolding squat_form_def bindE_def Let_def
    by (auto split: sum.splits)
  define r1 where "r1 = (if k < 60
              then flag ''Squatting too deep - risk of knee injury''
                     ''Don't go below parallel (90 degrees)'' 20 r0
            else if k > 140
              then flag ''Not squatting deep enough''
                     ''Go deeper until thighs are parallel'' 15 r0
            else r0)"
  have r1: "overall_score r0 - 20 \<le> overall_score r1 \<and> overall_score r1 \<le> overall_score r0"
    by (simp add: r1_def flag_def)
  have "overall_score r1 - 65 \<le> overall_score r \<and> overall_score r \<le> overall_score r1"
    unfolding r r1_def [symmetric] flag_if_score by simp
  with r1 show ?thesis by linarith
qed

lemma bicep_curl_form_score:
  assumes "bicep_curl_form f r0 = Inr r"
  shows "overall_score r0 - 40 \<le> overall_score r \<and> overall_score r \<le> overall_score r0"
proof -
  from assms obtain over where
    r: "r = flag_if (get_default f ''torso_lean'' 0 > 15) ''Leaning too much''
                 ''Stand straight, engage core'' 10
             (flag_if (get_default f ''right_elbow_angle_velocity'' 0 > 150)
                ''Using momentum - swinging weights'' ''Use controlled movements'' 20
             (flag_if over ''Elbow overextending'' ''Don't fully lock out elbows'' 10 r0))"
    unfolding bicep_curl_form_def bindE_def Let_def
    by (auto split: sum.splits)
  show ?thesis
    unfolding r flag_if_score by simp
qed

lemma push_up_form_score:
  assumes "push_up_form f r0 = Inr r"
  shows "overall_score r0 - 35 \<le> overall_score r \<and> overall_score r \<le> overall_score r0"
proof -
  from assms obtain e :: real where
    r: "r = flag_if (get_default f ''spine_angle'' 180 < 160) ''Hips sagging or piking''
                 ''Maintain straight line from head to heels'' 20
             (flag_if (e > 160) ''Not going down far enough''
                  ''Lower until chest nearly touches ground'' 15 r0)"
    unfolding push_up_form_def bindE_def Let_def
    by (auto split: sum.splits)
  show ?thesis
    unfolding r flag_if_score by simp
qed


lemma analyze_form_quality_score:
  assumes "analyze_form_quality ex f = Inr r"
  shows "10 \<le> overall_score r \<and> overall_score r \<le> 100"
proof -
  define r0 where "r0 = \<lparr>overall_score = 100, issues = [], recommendations = []\<rparr>"
  define m where "m = (if ex = ''squat'' then squat_form f r0
            else if ex = ''bicep_curl'' then bicep_curl_form f r0
            else if ex = ''push_up'' then push_up_form f r0
            else Inr r0)"
  define vis where "vis = flag_if (get_default f ''min_visibility'' 1 < 7 / 10)
                      ''Poor camera angle or lighting''
                      ''Improve camera position and lighting'' 5"
  have eq: "analyze_form_quality ex f =
              bindE m (\<lambda>r. Inr ((vis r)\<lparr>overall_score := max (overall_score (vis r)) 0\<rparr>))"
    by (simp add: analyze_form_quality_def Let_def m_def r0_def vis_def)
  from assms obtain r1 where m: "m = Inr r1"
    and r: "r = (vis r1)\<lparr>overall_score := max (overall_score (vis r1)) 0\<rparr>"
    unfolding eq bindE_def by (cases m) auto
  have "overall_score r0 - 85 \<le> overall_score r1 \<and> overall_score r1 \<le> overall_score r0"
    using m squat_form_score [of f r0 r1] bicep_curl_form_score [of f r0 r1]
      push_up_form_score [of f r0 r1]
    unfolding m_def by (auto split: if_splits)
  then have "15 \<le> overall_score r1 \<and> overall_score r1 \<le> 100"
    by (simp add: r0_def)
  then show ?thesis
    by (simp add: r vis_def flag_if_score)
qed

lemma avg_item_Some:
  "f k1 = Some a \<Longrightarrow> f k2 = Some b \<Longrightarrow> avg_item f k1 k2 = Inr ((a + b) / 2)"
  by (simp add: avg_item_def bindE_def getitem_def)

lemma elbow_overextended_total:
  "f ''right_elbow_angle'' = Some a \<Longrightarrow> f ''left_elbow_angle'' = Some b \<Longrightarrow>
     \<exists>v. elbow_overextended f = Inr v"
  by (auto simp: elbow_overextended_def bindE_def getitem_def)

lemma analyze_form_quality_total:
  assumes "has_angles f"
  shows "\<exists>r. analyze_form_quality ex f = Inr r"
proof -
  from assms obtain rk lk rh lh re le where
    k: "f ''right_knee_angle'' = Some rk" "f ''left_knee_angle'' = Some lk" and
    h: "f ''right_hip_angle'' = Some rh" "f ''left_hip_angle'' = Some lh" and
    e: "f ''right_elbow_angle'' = Some re" "f ''left_elbow_angle'' = Some le"
    unfolding has_angles_def by blast
  obtain v where v: "elbow_overextended f = Inr v"
    using elbow_overextended_total [OF e] by blast
  show ?thesis
    unfolding analyze_form_quality_def squat_form_def bicep_curl_form_def push_up_form_def
    by (simp add: avg_item_Some [OF k] avg_item_Some [OF h] avg_item_Some [OF e] v
          bindE_def Let_def)
qed

text \<open>
  C3. For every exercise label and every feature vector on which the scorer returns, the
  score lies between 0 and 100: it starts at 100, fixed penalties are subtracted and the
  result is clamped at 0 from below. The scorer returns on every vector that carries the
  six joint angles. On the maximally penalised squat frame the seven rules that can fire
  together take 90 points and the score is 10.
\<close>

theorem form_score_range:
  "(\<forall>r. analyze_form_quality exercise f = Inr r \<longrightarrow>
        0 \<le> overall_score r \<and> overall_score r \<le> 100) \<and>
   (has_angles f \<longrightarrow> (\<exists>r. analyze_form_quality exercise f = Inr r)) \<and>
   map_sum id overall_score (analyze_form_quality ''squat'' worst_squat) = Inr 10 \<and>
   map_sum id (length \<circ> issues) (analyze_form_quality ''squat'' worst_squat) = Inr 7"
proof -
  have range: "\<forall>r. analyze_form_quality exercise f = Inr r \<longrightarrow>
        0 \<le> overall_score r \<and> overall_score r \<le> 100"
    using analyze_form_quality_score [of exercise f] by fastforce
  have total: "has_angles f \<longrightarrow> (\<exists>r. analyze_form_quality exercise f = Inr r)"
    using analyze_form_quality_total [of f exercise] by blast
  have worst: "map_sum id overall_score (analyze_form_quality ''squat'' worst_squat) = Inr 10"
    by (simp add: worst_squat_def analyze_form_quality_def squat_form_def avg_item_def
          getitem_def bindE_def get_default_def flag_if_def flag_def Let_def)
  have fired: "map_sum id (length \<circ> issues) (analyze_form_quality ''squat'' worst_squat) = Inr 7"
    by (simp add: worst_squat_def analyze_form_quality_def squat_form_def avg_item_def
          getitem_def bindE_def get_default_def flag_if_def flag_def Let_def)
  from range total worst fired show ?thesis by blast
qed

theorem form_score_range_witness:
  "has_angles worst_squat \<and>
   (\<exists>r. analyze_form_quality ''squat'' worst_squat = Inr r \<and>
        0 \<le> overall_score r \<and> overall_score r \<le> 100)"
proof -
  have h: "has_angles worst_squat"
    by (simp add: has_angles_def worst_squat_def)
  with form_score_range [of "''squat''" worst_squat] show ?thesis by blast
qed

subsection \<open>The classifier\<close>

lemma getitem_Some: "f k = Some v \<Longrightarrow> getitem f k = Inr v"
  by (simp add: getitem_def)

lemma detect_exercise_type_eval:
  assumes "has_angles f"
  shows "detect_exercise_type f =
           Inr (if squat_rule f (avg_knee_of f) (avg_hip_of f) then ''squat''
                else if bicep_curl_rule f (avg_elbow_of f) then ''bicep_curl''
                else if push_up_rule f (avg_elbow_of f) then ''push_up''
                else if plank_rule f then ''plank''
                else ''unknown'')"
proof -
  from assms obtain rk lk rh lh re le where
    k: "f ''right_knee_angle'' = Some rk" "f ''left_knee_angle'' = Some lk" and
    h: "f ''right_hip_angle'' = Some rh" "f ''left_hip_angle'' = Some lh" and
    e: "f ''right_elbow_angle'' = Some re" "f ''left_elbow_angle'' = Some le"
    unfolding has_angles_def by blast
  show ?thesis
    unfolding detect_exercise_type_def avg_knee_of_def avg_hip_of_def avg_elbow_of_def
    by (simp add: avg_item_Some [OF k] avg_item_Some [OF h] avg_item_Some [OF e] k h e bindE_def)
qed

text \<open>
  C4, as stated, fails: on a straight, horizontal body with bent elbows both the push-up
  rule and the plank rule hold, and the priority order decides for the push-up.
\<close>

theorem rules_not_exclusive:
  "has_angles low_plank \<and> rules_holding low_plank = [''push_up'', ''plank''] \<and>
   \<not> length (rules_holding low_plank) \<le> 1 \<and>
   detect_exercise_type low_plank = Inr ''push_up''"
  by (simp add: low_plank_def has_angles_def rules_holding_def detect_exercise_type_def
        squat_rule_def bicep_curl_rule_def push_up_rule_def plank_rule_def get_default_def
        avg_knee_of_def avg_hip_of_def avg_elbow_of_def avg_item_def getitem_def bindE_def)

text \<open>
  C4, amended. On every feature vector that carries the six joint angles the classifier
  returns the label of the first rule, in the order squat, bicep\_curl, push\_up, plank,
  that holds, and "unknown" when none holds. So a vector on which exactly one rule holds
  receives that rule's label, whatever the order.
\<close>

theorem classification_priority:
  assumes "has_angles f"
  shows "detect_exercise_type f =
           Inr (case rules_holding f of [] \<Rightarrow> ''unknown'' | l # _ \<Rightarrow> l) \<and>
         (\<forall>l. rules_holding f = [l] \<longrightarrow> detect_exercise_type f = Inr l)"
proof -
  have first: "detect_exercise_type f =
           Inr (case rules_holding f of [] \<Rightarrow> ''unknown'' | l # _ \<Rightarrow> l)"
    unfolding detect_exercise_type_eval [OF assms] rules_holding_def by simp
  then show ?thesis by simp
qed

theorem classification_priority_witness:
  "has_angles deep_squat \<and> rules_holding deep_squat = [''squat''] \<and>
   detect_exercise_type deep_squat = Inr ''squat''"
proof -
  have h: "has_angles deep_squat"
    by (simp add: has_angles_def deep_squat_def)
  have r: "rules_holding deep_squat = [''squat'']"
    by (simp add: deep_squat_def rules_holding_def squat_rule_def bicep_curl_rule_def
          push_up_rule_def plank_rule_def get_default_def avg_knee_of_def avg_hip_of_def
          avg_elbow_of_def)
  from classification_priority [OF h] r h show ?thesis by simp
qed

subsection \<open>Label smoothing\<close>

lemma feed_labels_append: "feed_labels s (xs @ ys) = feed_labels (feed_labels s xs) ys"
  by (induction xs arbitrary: s) simp_all

lemma alternating_Suc:
  "alternating (Suc n) a b = alternating n a b @ [Some (if even n then a else b)]"
  by (simp add: alternating_def)

lemma run_Suc:
  "feed_labels s (alternating (Suc n) a b) =
     smooth_exercise_detection (feed_labels s (alternating n a b)) (Some (if even n then a else b))"
  by (simp add: alternating_Suc feed_labels_append)

lemmas smooth_eval = smooth_exercise_detection_def deque_append_def window_confidence_def
  tally_def max_by_count_def later_if_greater_def Let_def

lemma same5:
  "feed_labels coach_init (replicate 5 (Some l)) =
     coach_init\<lparr>exercise_history := [l, l, l, l, l], current_exercise := l, exercise_confidence := 1\<rparr>"
  by (simp add: eval_nat_numeral smooth_eval coach_init_def)


lemma alternating_0: "alternating 0 a b = []"
  by (simp add: alternating_def)

lemma alternating_numeral:
  "alternating (numeral k) a b =
     alternating (pred_numeral k) a b @ [Some (if even (pred_numeral k) then a else b)]"
  by (simp add: numeral_eq_Suc alternating_Suc)

lemma alternating_1: "alternating (Suc 0) a b = [Some a]"
  by (simp add: alternating_def)

lemma alternating_5: "alternating 5 a b = [Some a, Some b, Some a, Some b, Some a]"
  by (simp add: alternating_numeral alternating_1)

lemma alternating_10:
  "alternating 10 a b = [Some a, Some b, Some a, Some b, Some a, Some b, Some a, Some b, Some a, Some b]"
  by (simp add: alternating_numeral alternating_1)


lemma alternating_small:
  "alternating 2 a b = [Some a, Some b]" "alternating 3 a b = [Some a, Some b, Some a]" "alternating 4 a b = [Some a, Some b, Some a, Some b]"
  "alternating 6 a b = [Some a, Some b, Some a, Some b, Some a, Some b]" "alternating 7 a b = [Some a, Some b, Some a, Some b, Some a, Some b, Some a]"
  "alternating 8 a b = [Some a, Some b, Some a, Some b, Some a, Some b, Some a, Some b]" "alternating 9 a b = [Some a, Some b, Some a, Some b, Some a, Some b, Some a, Some b, Some a]"
  by (simp_all add: alternating_numeral alternating_1)


text \<open>The coach after the first ten labels of an alternating sequence.\<close>

lemma alternating_run_small:
  assumes "a \<noteq> b"
  shows
    "feed_labels coach_init (alternating 0 a b) =
       coach_init\<lparr>exercise_history := [], current_exercise := ''unknown'', exercise_confidence := 0\<rparr>"
    "feed_labels coach_init (alternating (Suc 0) a b) =
       coach_init\<lparr>exercise_history := [a], current_exercise := ''unknown'', exercise_confidence := 0\<rparr>"
    "feed_labels coach_init (alternating 2 a b) =
       coach_init\<lparr>exercise_history := [a, b], current_exercise := ''unknown'', exercise_confidence := 0\<rparr>"
    "feed_labels coach_init (alternating 3 a b) =
       coach_init\<lparr>exercise_history := [a, b, a], current_exercise := ''unknown'', exercise_confidence := 0\<rparr>"
    "feed_labels coach_init (alternating 4 a b) =
       coach_init\<lparr>exercise_history := [a, b, a, b], current_exercise := ''unknown'', exercise_confidence := 0\<rparr>"
    "feed_labels coach_init (alternating 5 a b) =
       coach_init\<lparr>exercise_history := [a, b, a, b, a], current_exercise := a, exercise_confidence := 3 / 5\<rparr>"
    "feed_labels coach_init (alternating 6 a b) =
       coach_init\<lparr>exercise_history := [a, b, a, b, a, b], current_exercise := a, exercise_confidence := 3 / 5\<rparr>"
    "feed_labels coach_init (alternating 7 a b) =
       coach_init\<lparr>exercise_history := [a, b, a, b, a, b, a], current_exercise := a, exercise_confidence := 3 / 5\<rparr>"
    "feed_labels coach_init (alternating 8 a b) =
       coach_init\<lparr>exercise_history := [a, b, a, b, a, b, a, b], current_exercise := a, exercise_confidence := 3 / 5\<rparr>"
    "feed_labels coach_init (alternating 9 a b) =
       coach_init\<lparr>exercise_history := [a, b, a, b, a, b, a, b, a], current_exercise := a, exercise_confidence := 3 / 5\<rparr>"
    "feed_labels coach_init (alternating 10 a b) =
       coach_init\<lparr>exercise_history := [a, b, a, b, a, b, a, b, a, b], current_exercise := a, exercise_confidence := 3 / 5\<rparr>"
  using assms
  by (simp_all add: alternating_0 alternating_1 alternating_small alternating_5 alternating_10
        smooth_eval coach_init_def)

lemma alternating_run_large:
  assumes "a \<noteq> b"
  shows "feed_labels coach_init (alternating (10 + m) a b) =
     coach_init\<lparr>exercise_history := (if even m then alt_window a b else alt_window b a),
                current_exercise := a, exercise_confidence := 3 / 5\<rparr>"
proof (induction m)
  case 0
  show ?case using alternating_run_small(11) [OF assms] by (simp add: alt_window_def)
next
  case (Suc m)
  have "feed_labels coach_init (alternating (10 + Suc m) a b) =
          smooth_exercise_detection (feed_labels coach_init (alternating (10 + m) a b))
            (Some (if even m then a else b))"
    using run_Suc [of coach_init "10 + m" a b] by simp
  then show ?case
    unfolding Suc.IH using assms
    by (simp add: smooth_eval alt_window_def coach_init_def)
qed

lemma window_confidence_alt_window:
  assumes "a \<noteq> b"
  shows "window_confidence (alt_window a b) = Some (a, 1 / 2)"
  using assms
  by (simp add: alt_window_def window_confidence_def tally_def max_by_count_def
        later_if_greater_def)

lemma alternating_run:
  assumes "a \<noteq> b"
  shows "current_exercise (feed_labels coach_init (alternating n a b)) =
           (if n < 5 then ''unknown'' else a) \<and>
         exercise_confidence (feed_labels coach_init (alternating n a b)) \<le> 6 / 10 \<and>
         (5 \<le> n \<longrightarrow>
           window_confidence (exercise_history (feed_labels coach_init (alternating n a b))) \<noteq> None \<and>
           (\<forall>m c. window_confidence (exercise_history (feed_labels coach_init (alternating n a b)))
                     = Some (m, c) \<longrightarrow> c \<le> 6 / 10))"
proof (cases "n < 10")
  case True
  then have "n < 5 \<or> n \<in> {5, 6, 7, 8, 9}"
    by auto
  moreover have "n < 5 \<longrightarrow> n \<in> {0, Suc 0, 2, 3, 4}"
    by auto
  ultimately consider "n = 0" | "n = Suc 0" | "n = 2" | "n = 3" | "n = 4" | "n = 5" | "n = 6"
    | "n = 7" | "n = 8" | "n = 9"
    by blast
  then show ?thesis
    using assms
    by cases (simp_all add: alternating_run_small [OF assms] window_confidence_def tally_def
        max_by_count_def later_if_greater_def)
next
  case False
  then obtain m where n: "n = 10 + m"
    using le_Suc_ex [of 10 n] by auto
  have ba: "b \<noteq> a" using assms by simp
  show ?thesis
    unfolding n alternating_run_large [OF assms]
    by (cases "even m")
       (simp_all add: window_confidence_alt_window [OF assms] window_confidence_alt_window [OF ba])
qed

lemma same_label_before_five:
  assumes "k < 5"
  shows "current_exercise (feed_labels coach_init (replicate k (Some l))) = ''unknown''"
proof -
  from assms have "k = 0 \<or> k = Suc 0 \<or> k = 2 \<or> k = 3 \<or> k = 4"
    by arith
  then show ?thesis
    by (elim disjE) (simp_all add: eval_nat_numeral smooth_eval coach_init_def)
qed

text \<open>
  C5, as stated, fails: on the alternating sequence squat, plank, squat, plank, squat the
  fifth frame sees the window share 3/5, the test \<^verbatim>\<open>confidence >= 0.6\<close> succeeds, and the
  smoothed label changes from its initial value "unknown" to "squat".
\<close>

theorem alternating_label_changes:
  "current_exercise coach_init = ''unknown'' \<and>
   current_exercise (feed_labels coach_init (alternating 5 ''squat'' ''plank'')) = ''squat'' \<and>
   exercise_confidence (feed_labels coach_init (alternating 5 ''squat'' ''plank'')) = 6 / 10"
  by (simp add: alternating_5 smooth_eval coach_init_def)

text \<open>
  C5, amended. From the initial state, the same raw label five times in a row gives
  confidence 1 and the smoothed label switches to it at the fifth frame (before it, the
  label is still "unknown"). On a sequence alternating between two distinct labels the
  confidence, both the one computed at each frame from the fifth on and the one stored,
  never exceeds 0.6; the smoothed label keeps its initial value for the first four frames,
  becomes the first label of the sequence at the fifth frame, where the confidence is
  exactly 0.6, and keeps that value ever after.
\<close>

theorem label_smoothing:
  "current_exercise (feed_labels coach_init (replicate 5 (Some l))) = l \<and>
   exercise_confidence (feed_labels coach_init (replicate 5 (Some l))) = 1 \<and>
   (\<forall>k<5. current_exercise (feed_labels coach_init (replicate k (Some l))) = ''unknown'') \<and>
   (a \<noteq> b \<longrightarrow>
     (\<forall>n. current_exercise (feed_labels coach_init (alternating n a b)) =
            (if n < 5 then ''unknown'' else a) \<and>
          exercise_confidence (feed_labels coach_init (alternating n a b)) \<le> 6 / 10 \<and>
          (5 \<le> n \<longrightarrow>
            window_confidence (exercise_history (feed_labels coach_init (alternating n a b))) \<noteq> None \<and>
            (\<forall>m c. window_confidence (exercise_history (feed_labels coach_init (alternating n a b)))
                     = Some (m, c) \<longrightarrow> c \<le> 6 / 10))))"
proof -
  have five: "current_exercise (feed_labels coach_init (replicate 5 (Some l))) = l \<and>
      exercise_confidence (feed_labels coach_init (replicate 5 (Some l))) = 1"
    by (simp add: same5)
  have before: "\<forall>k<5. current_exercise (feed_labels coach_init (replicate k (Some l))) = ''unknown''"
    using same_label_before_five by blast
  from five before alternating_run [of a b] show ?thesis
    by blast
qed

theorem label_smoothing_witness:
  "''squat'' \<noteq> ''plank'' \<and> (2::nat) < 5 \<and> \<not> (7::nat) < 5 \<and>
   current_exercise (feed_labels coach_init (replicate 2 (Some ''squat''))) = ''unknown'' \<and>
   current_exercise (feed_labels coach_init (alternating 2 ''squat'' ''plank'')) = ''unknown'' \<and>
   current_exercise (feed_labels coach_init (alternating 7 ''squat'' ''plank'')) = ''squat'' \<and>
   exercise_confidence (feed_labels coach_init (alternating 7 ''squat'' ''plank'')) \<le> 6 / 10"
proof -
  have d: "''squat'' \<noteq> ''plank''" by simp
  note t = label_smoothing [of "''squat''" "''squat''" "''plank''"]
  from t have k: "\<forall>k<5. current_exercise (feed_labels coach_init (replicate k (Some ''squat''))) = ''unknown''"
    by blast
  from t d have a: "\<forall>n. current_exercise (feed_labels coach_init (alternating n ''squat'' ''plank'')) =
            (if n < 5 then ''unknown'' else ''squat'') \<and>
          exercise_confidence (feed_labels coach_init (alternating n ''squat'' ''plank'')) \<le> 6 / 10"
    by blast
  from k have "current_exercise (feed_labels coach_init (replicate 2 (Some ''squat''))) = ''unknown''"
    by simp
  moreover from a [rule_format, of 2] a [rule_format, of 7]
  have "current_exercise (feed_labels coach_init (alternating 2 ''squat'' ''plank'')) = ''unknown'' \<and>
   current_exercise (feed_labels coach_init (alternating 7 ''squat'' ''plank'')) = ''squat'' \<and>
   exercise_confidence (feed_labels coach_init (alternating 7 ''squat'' ''plank'')) \<le> 6 / 10"
    by simp
  ultimately show ?thesis by simp
qed

subsection \<open>The batch repetition estimate\<close>















subsection \<open>The angle function\<close>

lemma rint_of_int: "rint (of_int k) = k"
  by (simp add: rint_def)

lemma rint_nonneg: "0 \<le> x \<Longrightarrow> 0 \<le> rint x"
  by (auto simp: rint_def Let_def)

lemma rint_le_int:
  assumes "x \<le> of_int n"
  shows "rint x \<le> n"
proof (cases "x = of_int n")
  case True
  then show ?thesis by (simp add: rint_of_int)
next
  case False
  with assms have "x < of_int n" by simp
  then have "\<lfloor>x\<rfloor> < n" by (simp add: floor_less_iff)
  then show ?thesis by (auto simp: rint_def Let_def)
qed

lemma round2_range:
  assumes "0 \<le> x" "x \<le> 180"
  shows "0 \<le> round2 x \<and> round2 x \<le> 180"
proof -
  have "0 \<le> rint (x * 100)"
    using assms by (intro rint_nonneg) simp
  moreover have "rint (x * 100) \<le> 18000"
    using assms by (intro rint_le_int) simp
  ultimately show ?thesis
    by (simp add: round2_def)
qed

lemma clip_range: "- 1 \<le> clip x (- 1) 1 \<and> clip x (- 1) 1 \<le> 1"
  by (simp add: clip_def)

lemma degrees_arccos_range:
  assumes "- 1 \<le> y" "y \<le> 1"
  shows "0 \<le> degrees (arccos y) \<and> degrees (arccos y) \<le> 180"
proof -
  have "0 \<le> arccos y" "arccos y \<le> pi"
    using assms by (simp_all add: arccos_lbound arccos_ubound)
  then show ?thesis
    by (simp add: degrees_def pos_divide_le_eq)
qed

lemma calculate_angle_range: "0 \<le> calculate_angle a b c \<and> calculate_angle a b c \<le> 180"
proof -
  have "0 \<le> round2 (degrees (arccos (clip x (- 1) 1))) \<and>
        round2 (degrees (arccos (clip x (- 1) 1))) \<le> 180" for x
    using degrees_arccos_range [of "clip x (- 1) 1"] clip_range [of x] round2_range by blast
  then show ?thesis
    by (simp add: calculate_angle_def Let_def)
qed

lemma norm2_zero_iff: "norm2 (vsub p q) = 0 \<longleftrightarrow> p = q"
  by (cases p; cases q) (simp add: norm2_def vsub_def sum_power2_eq_zero_iff)

lemma calculate_angle_degenerate: "a = b \<or> c = b \<Longrightarrow> calculate_angle a b c = 0"
  by (auto simp: calculate_angle_def Let_def norm2_zero_iff)

lemma round2_of_int: "round2 (of_int k) = of_int k"
proof -
  have "rint (of_int (k * 100)) = k * 100" by (rule rint_of_int)
  then show ?thesis by (simp add: round2_def)
qed

lemma calculate_angle_corner: "calculate_angle (0, 0) (1, 0) (1, 1) = 90"
proof -
  have "degrees (arccos 0) = 90"
    by (simp add: degrees_def arccos_0)
  moreover have "round2 90 = 90"
    using round2_of_int [of 90] by simp
  ultimately show ?thesis
    by (simp add: calculate_angle_def Let_def vsub_def dot_def norm2_def clip_def)
qed

lemma cauchy_schwarz_2d:
  "(x1 * x2 + y1 * y2)\<^sup>2 \<le> (x1\<^sup>2 + y1\<^sup>2) * (x2\<^sup>2 + y2\<^sup>2)" for x1 :: real
proof -
  have "(x1\<^sup>2 + y1\<^sup>2) * (x2\<^sup>2 + y2\<^sup>2) - (x1 * x2 + y1 * y2)\<^sup>2 = (x1 * y2 - x2 * y1)\<^sup>2"
    by (simp add: power2_eq_square algebra_simps)
  moreover have "0 \<le> (x1 * y2 - x2 * y1)\<^sup>2" by simp
  ultimately show ?thesis by linarith
qed

lemma cosine_range:
  "\<bar>dot p q\<bar> \<le> norm2 p * norm2 q"
proof -
  have "\<bar>dot p q\<bar> = sqrt ((dot p q)\<^sup>2)" by simp
  also have "\<dots> \<le> sqrt (((fst p)\<^sup>2 + (snd p)\<^sup>2) * ((fst q)\<^sup>2 + (snd q)\<^sup>2))"
    unfolding dot_def by (intro real_sqrt_le_mono cauchy_schwarz_2d)
  also have "\<dots> = norm2 p * norm2 q"
    by (simp add: norm2_def real_sqrt_mult)
  finally show ?thesis .
qed

lemma calculate_angle_is_angle:
  assumes "a \<noteq> b" "c \<noteq> b"
  shows "\<exists>\<theta>. 0 \<le> \<theta> \<and> \<theta> \<le> pi \<and>
           cos \<theta> * (norm2 (vsub a b) * norm2 (vsub c b)) = dot (vsub a b) (vsub c b) \<and>
           calculate_angle a b c = round2 (degrees \<theta>)"
proof -
  let ?ba = "vsub a b" and ?bc = "vsub c b"
  let ?n = "norm2 ?ba * norm2 ?bc"
  have pos: "0 < norm2 ?ba" "0 < norm2 ?bc"
    using assms norm2_zero_iff [of a b] norm2_zero_iff [of c b]
    by (simp_all add: norm2_def less_le)
  then have n: "0 < ?n" by simp
  let ?cosine = "dot ?ba ?bc / ?n"
  have "\<bar>?cosine\<bar> = \<bar>dot ?ba ?bc\<bar> / ?n"
    using n by (simp add: abs_of_pos)
  also have "\<dots> \<le> 1"
    using cosine_range [of ?ba ?bc] n by (simp add: pos_divide_le_eq)
  finally have "\<bar>?cosine\<bar> \<le> 1" .
  then have r: "- 1 \<le> ?cosine" "?cosine \<le> 1" by linarith+
  then have clip: "clip ?cosine (- 1) 1 = ?cosine"
    by (simp add: clip_def)
  have "cos (arccos ?cosine) = ?cosine"
    using r by (rule cos_arccos)
  then have "cos (arccos ?cosine) * ?n = dot ?ba ?bc"
    using pos by simp
  moreover have "calculate_angle a b c = round2 (degrees (arccos ?cosine))"
    using pos by (simp add: calculate_angle_def Let_def clip)
  moreover have "0 \<le> arccos ?cosine" "arccos ?cosine \<le> pi"
    using r by (simp_all add: arccos_lbound arccos_ubound)
  ultimately show ?thesis by blast
qed

lemma calculate_angle_at_origin: "calculate_angle (1, 0) (0, 0) (1, 1) = 45"
proof -
  have "arccos (cos (pi / 4)) = pi / 4"
    by (rule arccos_cos) simp_all
  then have a: "arccos (sqrt 2 / 2) = pi / 4"
    by (simp add: cos_45)
  have c: "1 / sqrt 2 = sqrt 2 / 2"
    by (simp add: real_div_sqrt field_simps)
  have le: "sqrt 2 / 2 \<le> 1"
    using real_sqrt_le_mono [of 2 4] by simp
  have "0 \<le> sqrt 2" by simp
  then have ge: "- 1 \<le> sqrt 2 / 2" by linarith
  have "degrees (arccos (clip (1 / sqrt 2) (- 1) 1)) = 45"
    unfolding c using le ge by (simp add: clip_def a degrees_def)
  moreover have "round2 45 = 45"
    using round2_of_int [of 45] by simp
  ultimately show ?thesis
    by (simp add: calculate_angle_def Let_def vsub_def dot_def norm2_def)
qed

text \<open>
  C6. At the example a = (0,0), b = (1,0), c = (1,1) the angle function is expected to
  return 45.0, and the unit test \<^verbatim>\<open>test_angle_calculation\<close> of
  \<^verbatim>\<open>tests/test_features.py\<close> asserts that value. The code does not: the rays from b
  are (-1,0) and (0,1), their dot product is 0, and the function returns 90.
\<close>

theorem angle_example_is_90:
  "calculate_angle (0, 0) (1, 0) (1, 1) = 90 \<and> calculate_angle (0, 0) (1, 0) (1, 1) \<noteq> 45"
  by (simp add: calculate_angle_corner)

text \<open>
  What the angle function does compute. Its value lies in [0, 180]. When neither ray from
  b has zero length the value is, rounded to two decimals, the measure in degrees of the
  angle between 0 and pi whose cosine is the normalised dot product of the two rays, that
  is, the angle at vertex b. For a = (0,0), b = (1,0), c = (1,1) it returns 90; the value
  45 belongs to the angle of the same three points at vertex a. Whenever a = b or c = b
  (a ray of zero length) it returns 0; the function has no raising path.
\<close>

theorem angle_function:
  "0 \<le> calculate_angle a b c \<and> calculate_angle a b c \<le> 180 \<and>
   (a \<noteq> b \<and> c \<noteq> b \<longrightarrow>
      (\<exists>\<theta>. 0 \<le> \<theta> \<and> \<theta> \<le> pi \<and>
            cos \<theta> * (norm2 (vsub a b) * norm2 (vsub c b)) = dot (vsub a b) (vsub c b) \<and>
            calculate_angle a b c = round2 (degrees \<theta>))) \<and>
   calculate_angle (0, 0) (1, 0) (1, 1) = 90 \<and>
   calculate_angle (1, 0) (0, 0) (1, 1) = 45 \<and>
   (a = b \<or> c = b \<longrightarrow> calculate_angle a b c = 0) \<and>
   (norm2 (vsub a b) = 0 \<or> norm2 (vsub c b) = 0 \<longrightarrow> calculate_angle a b c = 0)"
proof -
  have deg: "a = b \<or> c = b \<longrightarrow> calculate_angle a b c = 0"
    using calculate_angle_degenerate [of a b c] by blast
  then have deg': "norm2 (vsub a b) = 0 \<or> norm2 (vsub c b) = 0 \<longrightarrow> calculate_angle a b c = 0"
    by (simp add: norm2_zero_iff)
  have ang: "a \<noteq> b \<and> c \<noteq> b \<longrightarrow>
      (\<exists>\<theta>. 0 \<le> \<theta> \<and> \<theta> \<le> pi \<and>
            cos \<theta> * (norm2 (vsub a b) * norm2 (vsub c b)) = dot (vsub a b) (vsub c b) \<and>
            calculate_angle a b c = round2 (degrees \<theta>))"
    using calculate_angle_is_angle [of a b c] by blast
  from calculate_angle_range [of a b c] ang calculate_angle_corner calculate_angle_at_origin
    deg deg'
  show ?thesis by blast
qed

theorem angle_function_witness:
  "((0, 0) = ((0, 0) :: point) \<or> ((1, 1) :: point) = (0, 0)) \<and>
   calculate_angle (0, 0) (0, 0) (1, 1) = 0 \<and>
   ((1, 0) :: point) \<noteq> (0, 0) \<and> ((1, 1) :: point) \<noteq> (0, 0) \<and>
   0 \<le> calculate_angle (1, 0) (0, 0) (1, 1) \<and> calculate_angle (1, 0) (0, 0) (1, 1) \<le> 180"
proof -
  have "calculate_angle (0, 0) (0, 0) (1, 1) = 0"
    using angle_function [of "(0, 0)" "(0, 0)" "(1, 1)"] by blast
  moreover have "0 \<le> calculate_angle (1, 0) (0, 0) (1, 1) \<and>
      calculate_angle (1, 0) (0, 0) (1, 1) \<le> 180"
    using angle_function [of "(1, 0)" "(0, 0)" "(1, 1)"] by blast
  ultimately show ?thesis by simp
qed

subsection \<open>Session aggregation\<close>

lemma bump_not_Nil: "bump kvs k \<noteq> []"
  by (cases kvs) (auto split: if_splits)

lemma max_by_count_None: "max_by_count kvs = None \<longleftrightarrow> kvs = []"
  by (cases kvs) (simp_all add: max_by_count_def)

lemma extract_has_angles: "has_angles (snd (extract_comprehensive_features hist g))"
proof -
  obtain h' t where c: "calculate_temporal_features hist (angles_of g) = (h', t)"
    by (cases "calculate_temporal_features hist (angles_of g)")
  have eq: "snd (extract_comprehensive_features hist g) =
              map_of (angles_of g) ++ map_of (enhanced_features_of g) ++ map_of t"
    by (simp add: extract_comprehensive_features_def c)
  have keep: "m1 k \<noteq> None \<Longrightarrow> (m1 ++ m2 ++ m3) k \<noteq> None"
    for m1 m2 m3 :: features and k
    by (auto simp: map_add_def split: option.splits)
  have "has_angles (map_of (angles_of g))"
    by (simp add: has_angles_def angles_of_def)
  then show ?thesis
    unfolding eq has_angles_def by (intro conjI keep) simp_all
qed

lemma detect_exercise_type_total:
  assumes "has_angles f"
  shows "\<exists>l. detect_exercise_type f = Inr l"
proof -
  from assms obtain rk lk rh lh re le where
    k: "f ''right_knee_angle'' = Some rk" "f ''left_knee_angle'' = Some lk" and
    h: "f ''right_hip_angle'' = Some rh" "f ''left_hip_angle'' = Some lh" and
    e: "f ''right_elbow_angle'' = Some re" "f ''left_elbow_angle'' = Some le"
    unfolding has_angles_def by blast
  show ?thesis
    unfolding detect_exercise_type_def
    by (simp add: avg_item_Some [OF k] avg_item_Some [OF h] avg_item_Some [OF e] bindE_def)
qed

lemma analyse_frame_votes:
  "\<exists>hist' acc'. analyse_frame n g (hist, acc) = (hist', Inr acc') \<and> exercise_votes acc' \<noteq> []"
proof -
  obtain h' f where x: "extract_comprehensive_features hist g = (h', f)"
    by (cases "extract_comprehensive_features hist g")
  have f: "has_angles f"
    using extract_has_angles [of hist g] by (simp add: x)
  obtain l where l: "detect_exercise_type f = Inr l"
    using detect_exercise_type_total [OF f] by blast
  obtain r where r: "analyze_form_quality l f = Inr r"
    using analyze_form_quality_total [OF f] by blast
  show ?thesis
    by (simp add: analyse_frame_def x l r bindE_def bump_not_Nil)
qed

lemma process_frames_votes:
  "\<exists>hist' acc'. process_frames n frs (hist, acc) = (hist', Inr acc') \<and>
      (exercise_votes acc' = [] \<longleftrightarrow> exercise_votes acc = [] \<and> \<not> sampled_pose n frs)"
proof (induction frs arbitrary: n hist acc)
  case Nil
  show ?case by simp
next
  case (Cons fr frs)
  show ?case
  proof (cases "n mod FRAME_SKIP = 0 \<and> fr \<noteq> None")
    case False
    then have "process_frames n (fr # frs) (hist, acc) = process_frames (Suc n) frs (hist, acc)"
      by (cases fr) auto
    with Cons.IH [of "Suc n" hist acc] False show ?thesis by auto
  next
    case True
    then obtain g where g: "fr = Some g" by auto
    obtain h1 a1 where a: "analyse_frame n g (hist, acc) = (h1, Inr a1)"
      and v: "exercise_votes a1 \<noteq> []"
      using analyse_frame_votes [of n g hist acc] by blast
    have "process_frames n (fr # frs) (hist, acc) = process_frames (Suc n) frs (h1, a1)"
      using True by (simp add: g a)
    with Cons.IH [of "Suc n" h1 a1] v True show ?thesis by auto
  qed
qed

lemma sampled_pose_index:
  "sampled_pose n frs \<longleftrightarrow> (\<exists>i<length frs. (n + i) mod FRAME_SKIP = 0 \<and> frs ! i \<noteq> None)"
proof (induction frs arbitrary: n)
  case Nil
  show ?case by simp
next
  case (Cons fr frs)
  have "(\<exists>i<length (fr # frs). (n + i) mod FRAME_SKIP = 0 \<and> (fr # frs) ! i \<noteq> None) \<longleftrightarrow>
        (n mod FRAME_SKIP = 0 \<and> fr \<noteq> None) \<or>
        (\<exists>i<length frs. (Suc n + i) mod FRAME_SKIP = 0 \<and> frs ! i \<noteq> None)"
    by (auto simp: less_Suc_eq_0_disj)
  then show ?case by (simp add: Cons.IH)
qed

lemma filter_not_Nil: "filter P xs \<noteq> [] \<longleftrightarrow> (\<exists>x\<in>set xs. P x)"
  by (simp add: filter_empty_conv)

lemma classifiable_frames_sampled:
  "classifiable_frames v \<noteq> [] \<longleftrightarrow> sampled_pose 0 (cap_frames v)"
proof -
  have "classifiable_frames v \<noteq> [] \<longleftrightarrow>
          (\<exists>i\<in>set [0..<length (cap_frames v)]. i mod FRAME_SKIP = 0 \<and> cap_frames v ! i \<noteq> None)"
    unfolding classifiable_frames_def by (rule filter_not_Nil)
  also have "\<dots> \<longleftrightarrow> (\<exists>i<length (cap_frames v). (0 + i) mod FRAME_SKIP = 0 \<and> cap_frames v ! i \<noteq> None)"
    by (simp add: Bex_def)
  also have "\<dots> \<longleftrightarrow> sampled_pose 0 (cap_frames v)"
    by (rule sampled_pose_index [symmetric])
  finally show ?thesis .
qed

lemma analyze_video_outcome:
  assumes "is_opened v"
  shows "(classifiable_frames v = [] \<longrightarrow>
            snd (analyze_video hist v) = Inl No_pose_landmarks_detected_in_video) \<and>
         (classifiable_frames v \<noteq> [] \<longrightarrow> (\<exists>r. snd (analyze_video hist v) = Inr r))"
proof -
  obtain h' acc where p: "process_frames 0 (cap_frames v) (hist, running_init) = (h', Inr acc)"
    and v: "exercise_votes acc = [] \<longleftrightarrow>
              exercise_votes running_init = [] \<and> \<not> sampled_pose 0 (cap_frames v)"
    using process_frames_votes [of 0 "cap_frames v" hist running_init] by blast
  have r0: "exercise_votes running_init = []"
    by (simp add: running_init_def)
  have v': "exercise_votes acc = [] \<longleftrightarrow> classifiable_frames v = []"
    using v r0 classifiable_frames_sampled [of v] by blast
  show ?thesis
  proof (cases "classifiable_frames v = []")
    case True
    with v' have "max_by_count (exercise_votes acc) = None"
      by (simp add: max_by_count_None)
    with True assms show ?thesis
      by (simp add: analyze_video_def p)
  next
    case False
    with v' obtain best where "max_by_count (exercise_votes acc) = Some best"
      using max_by_count_None [of "exercise_votes acc"] by auto
    with False assms show ?thesis
      by (simp add: analyze_video_def p)
  qed
qed

text \<open>
  C7. A frame counts as classifiable when the aggregator samples it (every third frame,
  from frame 0) and a pose is extracted from it. When no frame of a run is classifiable
  the aggregator returns an error record and no result: "No pose landmarks detected in
  video" when the video opened, "Could not open video file" when it did not. When the
  video opened and at least one frame is classifiable it returns a result record.
\<close>

theorem session_empty_is_error:
  "(classifiable_frames v = [] \<longrightarrow> (\<exists>e. snd (analyze_video hist v) = Inl e)) \<and>
   (is_opened v \<and> classifiable_frames v = [] \<longrightarrow>
      snd (analyze_video hist v) = Inl No_pose_landmarks_detected_in_video) \<and>
   (\<not> is_opened v \<longrightarrow> snd (analyze_video hist v) = Inl Could_not_open_video_file) \<and>
   (is_opened v \<and> classifiable_frames v \<noteq> [] \<longrightarrow> (\<exists>r. snd (analyze_video hist v) = Inr r))"
proof (cases "is_opened v")
  case True
  with analyze_video_outcome [OF True, of hist] show ?thesis by auto
next
  case False
  then show ?thesis by (simp add: analyze_video_def)
qed

theorem session_empty_is_error_witness:
  "is_opened pose_off_sample \<and> classifiable_frames pose_off_sample = [] \<and>
   snd (analyze_video [] pose_off_sample) = Inl No_pose_landmarks_detected_in_video \<and>
   \<not> is_opened (pose_off_sample\<lparr>is_opened := False\<rparr>) \<and>
   snd (analyze_video [] (pose_off_sample\<lparr>is_opened := False\<rparr>)) = Inl Could_not_open_video_file \<and>
   is_opened two_squats \<and> classifiable_frames two_squats \<noteq> [] \<and>
   (\<exists>r. snd (analyze_video [] two_squats) = Inr r)"
proof -
  have a: "is_opened pose_off_sample \<and> classifiable_frames pose_off_sample = []"
    using classifiable_frames_sampled [of pose_off_sample]
    by (simp add: pose_off_sample_def FRAME_SKIP_def)
  have b: "is_opened two_squats \<and> classifiable_frames two_squats \<noteq> []"
    by (simp add: two_squats_def classifiable_frames_sampled FRAME_SKIP_def)
  have c: "\<not> is_opened (pose_off_sample\<lparr>is_opened := False\<rparr>)"
    by simp
  from a b c session_empty_is_error [of pose_off_sample "[]"]
    session_empty_is_error [of "pose_off_sample\<lparr>is_opened := False\<rparr>" "[]"]
    session_empty_is_error [of two_squats "[]"]
  show ?thesis by blast
qed

subsection \<open>Two runs in succession\<close>

lemma joint_temporal_keys:
  "fst ` set (joint_temporal prev jv) \<subseteq> {fst jv @ ''_velocity'', fst jv @ ''_is_fast''}"
  by (auto simp: joint_temporal_def Let_def split: option.splits)

lemma temporal_lookup_None:
  assumes "\<forall>jv\<in>set xs. k \<noteq> fst jv @ ''_velocity'' \<and> k \<noteq> fst jv @ ''_is_fast''"
  shows "map_of (concat (map (joint_temporal prev) xs)) k = None"
proof -
  have "k \<notin> fst ` set (concat (map (joint_temporal prev) xs))"
    using assms joint_temporal_keys [of prev] by fastforce
  then show ?thesis
    by (simp add: map_of_eq_None_iff)
qed

lemma calculate_temporal_features_keys:
  assumes "\<forall>jv\<in>set xs. k \<noteq> fst jv @ ''_velocity'' \<and> k \<noteq> fst jv @ ''_is_fast''"
  shows "map_of (snd (calculate_temporal_features hist xs)) k = None"
  using temporal_lookup_None [OF assms]
  by (simp add: calculate_temporal_features_def Let_def)

lemma extract_features_eq:
  "snd (extract_comprehensive_features hist g) =
     map_of (angles_of g) ++ map_of (enhanced_features_of g) ++
     map_of (snd (calculate_temporal_features hist (angles_of g)))"
  by (simp add: extract_comprehensive_features_def split_beta Let_def)

lemma extract_history_eq:
  "fst (extract_comprehensive_features hist g) = deque_append 30 hist (angles_of g)"
  by (simp add: extract_comprehensive_features_def split_beta calculate_temporal_features_def Let_def)

lemma extract_lookup_base:
  assumes "\<forall>jv\<in>set (angles_of g). k \<noteq> fst jv @ ''_velocity'' \<and> k \<noteq> fst jv @ ''_is_fast''"
  shows "snd (extract_comprehensive_features hist g) k =
           (map_of (angles_of g) ++ map_of (enhanced_features_of g)) k"
  unfolding extract_features_eq
  using calculate_temporal_features_keys [OF assms, of hist]
  by (simp add: map_add_def)

lemma base_keys:
  "\<forall>jv\<in>set (angles_of g). ''right_knee_angle'' \<noteq> fst jv @ ''_velocity'' \<and> ''right_knee_angle'' \<noteq> fst jv @ ''_is_fast''"
  "\<forall>jv\<in>set (angles_of g). ''left_knee_angle'' \<noteq> fst jv @ ''_velocity'' \<and> ''left_knee_angle'' \<noteq> fst jv @ ''_is_fast''"
  "\<forall>jv\<in>set (angles_of g). ''right_hip_angle'' \<noteq> fst jv @ ''_velocity'' \<and> ''right_hip_angle'' \<noteq> fst jv @ ''_is_fast''"
  "\<forall>jv\<in>set (angles_of g). ''left_hip_angle'' \<noteq> fst jv @ ''_velocity'' \<and> ''left_hip_angle'' \<noteq> fst jv @ ''_is_fast''"
  "\<forall>jv\<in>set (angles_of g). ''right_elbow_angle'' \<noteq> fst jv @ ''_velocity'' \<and> ''right_elbow_angle'' \<noteq> fst jv @ ''_is_fast''"
  "\<forall>jv\<in>set (angles_of g). ''left_elbow_angle'' \<noteq> fst jv @ ''_velocity'' \<and> ''left_elbow_angle'' \<noteq> fst jv @ ''_is_fast''"
  "\<forall>jv\<in>set (angles_of g). ''foot_distance'' \<noteq> fst jv @ ''_velocity'' \<and> ''foot_distance'' \<noteq> fst jv @ ''_is_fast''"
  "\<forall>jv\<in>set (angles_of g). ''spine_angle'' \<noteq> fst jv @ ''_velocity'' \<and> ''spine_angle'' \<noteq> fst jv @ ''_is_fast''"
  "\<forall>jv\<in>set (angles_of g). ''torso_lean'' \<noteq> fst jv @ ''_velocity'' \<and> ''torso_lean'' \<noteq> fst jv @ ''_is_fast''"
  "\<forall>jv\<in>set (angles_of g). ''knee_symmetry'' \<noteq> fst jv @ ''_velocity'' \<and> ''knee_symmetry'' \<noteq> fst jv @ ''_is_fast''"
  "\<forall>jv\<in>set (angles_of g). ''min_visibility'' \<noteq> fst jv @ ''_velocity'' \<and> ''min_visibility'' \<noteq> fst jv @ ''_is_fast''"
  by (simp_all add: angles_of_def)

lemma extract_lookups:
  "snd (extract_comprehensive_features hist g) ''right_knee_angle'' = Some (right_knee_angle g)"
  "snd (extract_comprehensive_features hist g) ''left_knee_angle'' = Some (left_knee_angle g)"
  "snd (extract_comprehensive_features hist g) ''right_hip_angle'' = Some (right_hip_angle g)"
  "snd (extract_comprehensive_features hist g) ''left_hip_angle'' = Some (left_hip_angle g)"
  "snd (extract_comprehensive_features hist g) ''right_elbow_angle'' = Some (right_elbow_angle g)"
  "snd (extract_comprehensive_features hist g) ''left_elbow_angle'' = Some (left_elbow_angle g)"
  "snd (extract_comprehensive_features hist g) ''foot_distance'' = Some (foot_distance g)"
  "snd (extract_comprehensive_features hist g) ''spine_angle'' = Some (spine_angle g)"
  "snd (extract_comprehensive_features hist g) ''torso_lean'' = Some (torso_lean g)"
  "snd (extract_comprehensive_features hist g) ''knee_symmetry'' = Some (knee_symmetry g)"
  "snd (extract_comprehensive_features hist g) ''min_visibility'' = Some (min_visibility g)"
  unfolding extract_lookup_base [OF base_keys(1)] extract_lookup_base [OF base_keys(2)]
    extract_lookup_base [OF base_keys(3)] extract_lookup_base [OF base_keys(4)]
    extract_lookup_base [OF base_keys(5)] extract_lookup_base [OF base_keys(6)]
    extract_lookup_base [OF base_keys(7)] extract_lookup_base [OF base_keys(8)]
    extract_lookup_base [OF base_keys(9)] extract_lookup_base [OF base_keys(10)]
    extract_lookup_base [OF base_keys(11)]
  by (simp_all add: angles_of_def enhanced_features_of_def map_add_def)

lemma velocity_absent:
  "snd (extract_comprehensive_features [] g) ''right_knee_angle_velocity'' = None"
  unfolding extract_features_eq
  by (simp add: calculate_temporal_features_def deque_append_def map_add_def angles_of_def
        enhanced_features_of_def)

lemma velocity_present:
  assumes "hist \<noteq> []" "length hist < 30"
    and "map_of (last hist) ''right_knee_angle'' = Some p"
  shows "snd (extract_comprehensive_features hist g) ''right_knee_angle_velocity'' =
           Some (\<bar>right_knee_angle g - p\<bar> * 30)"
proof -
  have d: "deque_append 30 hist (angles_of g) = hist @ [angles_of g]"
    using assms(2) by (simp add: deque_append_def)
  have l: "(hist @ [angles_of g]) ! (length (hist @ [angles_of g]) - 2) = last hist"
    using assms(1) by (simp add: nth_append last_conv_nth)
  have len: "2 \<le> length (hist @ [angles_of g])"
    using assms(1) by (cases hist) simp_all
  have t: "snd (calculate_temporal_features hist (angles_of g)) =
             concat (map (joint_temporal (last hist)) (angles_of g))"
    unfolding calculate_temporal_features_def Let_def d l using len by simp
  have "map_of (concat (map (joint_temporal (last hist)) (angles_of g)))
          ''right_knee_angle_velocity'' = Some (\<bar>right_knee_angle g - p\<bar> * 30)"
    by (simp add: angles_of_def joint_temporal_def assms(3))
  then show ?thesis
    unfolding extract_features_eq t by (simp add: map_add_def)
qed

lemma squat_frame_eval:
  fixes g :: geometry
  defines "avg_knee \<equiv> (right_knee_angle g + left_knee_angle g) / 2"
    and "avg_hip \<equiv> (right_hip_angle g + left_hip_angle g) / 2"
  assumes knee: "60 \<le> avg_knee" "avg_knee < 140"
    and hip: "60 \<le> avg_hip" "avg_hip < 130"
    and rest: "40 < foot_distance g" "160 < spine_angle g" "torso_lean g \<le> 30"
      "knee_symmetry g \<le> 15" "7 / 10 \<le> min_visibility g"
    and f: "f = snd (extract_comprehensive_features hist g)"
  shows "detect_exercise_type f = Inr ''squat''"
    and "analyze_form_quality ''squat'' f =
           Inr (flag_if (get_default f ''right_knee_angle_velocity'' 0 > 100)
                  ''Moving too quickly'' ''Slow down for better control'' 10
                  \<lparr>overall_score = 100, issues = [], recommendations = []\<rparr>)"
proof -
  note lk = extract_lookups [of hist g, folded f]
  have k: "avg_item f ''right_knee_angle'' ''left_knee_angle'' = Inr avg_knee"
    by (simp add: avg_item_Some [OF lk(1) lk(2)] avg_knee_def)
  have h: "avg_item f ''right_hip_angle'' ''left_hip_angle'' = Inr avg_hip"
    by (simp add: avg_item_Some [OF lk(3) lk(4)] avg_hip_def)
  have e: "\<exists>v. avg_item f ''right_elbow_angle'' ''left_elbow_angle'' = Inr v"
    using avg_item_Some [OF lk(5) lk(6)] by blast
  have g: "get_default f ''foot_distance'' d = foot_distance g"
    "get_default f ''spine_angle'' d = spine_angle g"
    "get_default f ''torso_lean'' d = torso_lean g"
    "get_default f ''knee_symmetry'' d = knee_symmetry g"
    "get_default f ''min_visibility'' d = min_visibility g" for d
    by (simp_all add: get_default_def lk)
  have sq: "squat_rule f avg_knee avg_hip"
    using knee hip rest by (simp add: squat_rule_def g)
  from e obtain v where e': "avg_item f ''right_elbow_angle'' ''left_elbow_angle'' = Inr v"
    by blast
  show "detect_exercise_type f = Inr ''squat''"
    by (simp add: detect_exercise_type_def k h e' bindE_def sq)
  have "squat_form f \<lparr>overall_score = 100, issues = [], recommendations = []\<rparr> =
          Inr (flag_if (get_default f ''right_knee_angle_velocity'' 0 > 100)
                  ''Moving too quickly'' ''Slow down for better control'' 10
                  \<lparr>overall_score = 100, issues = [], recommendations = []\<rparr>)"
    using knee hip rest
    by (simp add: squat_form_def k h bindE_def g Let_def flag_if_def)
  then show "analyze_form_quality ''squat'' f =
           Inr (flag_if (get_default f ''right_knee_angle_velocity'' 0 > 100)
                  ''Moving too quickly'' ''Slow down for better control'' 10
                  \<lparr>overall_score = 100, issues = [], recommendations = []\<rparr>)"
    using rest(5)
    by (simp add: analyze_form_quality_def bindE_def g Let_def flag_if_def flag_def)
qed

lemma analyse_frame_squat:
  fixes g :: geometry
  assumes knee: "60 \<le> (right_knee_angle g + left_knee_angle g) / 2"
      "(right_knee_angle g + left_knee_angle g) / 2 < 140"
    and hip: "60 \<le> (right_hip_angle g + left_hip_angle g) / 2"
      "(right_hip_angle g + left_hip_angle g) / 2 < 130"
    and rest: "40 < foot_distance g" "160 < spine_angle g" "torso_lean g \<le> 30"
      "knee_symmetry g \<le> 15" "7 / 10 \<le> min_visibility g"
    and fast: "fast \<longleftrightarrow>
      get_default (snd (extract_comprehensive_features hist g)) ''right_knee_angle_velocity'' 0 > 100"
  shows "analyse_frame n g (hist, acc) =
    (deque_append 30 hist (angles_of g),
     Inr (acc\<lparr>exercise_votes := bump (exercise_votes acc) ''squat'',
              analyzed := analyzed acc + 1,
              scores := scores acc @ [if fast then 90 else 100],
              issues_seen := issues_seen acc @ (if fast then [''Moving too quickly''] else []),
              recommendations_seen :=
                recommendations_seen acc @ (if fast then [''Slow down for better control''] else []),
              poor_frames := poor_frames acc\<rparr>))"
proof -
  define f where "f = snd (extract_comprehensive_features hist g)"
  have x: "extract_comprehensive_features hist g = (deque_append 30 hist (angles_of g), f)"
    using extract_history_eq [of hist g] by (simp add: f_def prod_eq_iff)
  note ev = squat_frame_eval [OF knee hip rest f_def]
  show ?thesis
    using fast [folded f_def]
    by (simp add: analyse_frame_def x ev bindE_def flag_if_def flag_def)
qed

lemma process_two:
  assumes "analyse_frame 0 g1 (h, acc) = (h1, Inr a1)"
    and "analyse_frame (Suc (Suc (Suc 0))) g2 (h1, a1) = (h2, Inr a2)"
  shows "process_frames 0 [Some g1, None, None, Some g2] (h, acc) = (h2, Inr a2)"
  by (simp add: assms FRAME_SKIP_def)

lemma squat_low_conditions:
  "60 \<le> (right_knee_angle squat_low + left_knee_angle squat_low) / 2"
  "(right_knee_angle squat_low + left_knee_angle squat_low) / 2 < 140"
  "60 \<le> (right_hip_angle squat_low + left_hip_angle squat_low) / 2"
  "(right_hip_angle squat_low + left_hip_angle squat_low) / 2 < 130"
  "40 < foot_distance squat_low" "160 < spine_angle squat_low" "torso_lean squat_low \<le> 30"
  "knee_symmetry squat_low \<le> 15" "7 / 10 \<le> min_visibility squat_low"
  by (simp_all add: squat_low_def)

lemma squat_high_conditions:
  "60 \<le> (right_knee_angle squat_high + left_knee_angle squat_high) / 2"
  "(right_knee_angle squat_high + left_knee_angle squat_high) / 2 < 140"
  "60 \<le> (right_hip_angle squat_high + left_hip_angle squat_high) / 2"
  "(right_hip_angle squat_high + left_hip_angle squat_high) / 2 < 130"
  "40 < foot_distance squat_high" "160 < spine_angle squat_high" "torso_lean squat_high \<le> 30"
  "knee_symmetry squat_high \<le> 15" "7 / 10 \<le> min_visibility squat_high"
  by (simp_all add: squat_high_def squat_low_def)

lemma knee_of_angles: "map_of (angles_of g) ''right_knee_angle'' = Some (right_knee_angle g)"
  by (simp add: angles_of_def)

lemma first_frame_slow:
  "\<not> get_default (snd (extract_comprehensive_features [] g)) ''right_knee_angle_velocity'' 0 > 100"
  by (simp add: get_default_def velocity_absent)

lemma later_frame_fast:
  assumes "hist \<noteq> []" "length hist < 30" "last hist = angles_of g0"
    and "\<bar>right_knee_angle g - right_knee_angle g0\<bar> * 30 > 100"
  shows "get_default (snd (extract_comprehensive_features hist g)) ''right_knee_angle_velocity'' 0 > 100"
proof -
  have "map_of (last hist) ''right_knee_angle'' = Some (right_knee_angle g0)"
    by (simp add: assms(3) knee_of_angles)
  from velocity_present [OF assms(1,2) this, of g] assms(4) show ?thesis
    by (simp add: get_default_def)
qed

lemma knee_jump:
  "\<bar>right_knee_angle squat_high - right_knee_angle squat_low\<bar> * 30 > 100"
  "\<bar>right_knee_angle squat_low - right_knee_angle squat_high\<bar> * 30 > 100"
  by (simp_all add: squat_high_def squat_low_def)

lemma first_run:
  "process_frames 0 (cap_frames two_squats) ([], running_init) =
     ([angles_of squat_low, angles_of squat_high],
      Inr \<lparr>exercise_votes = [(''squat'', 2)], analyzed = 2, scores = [100, 90],
           issues_seen = [''Moving too quickly''],
           recommendations_seen = [''Slow down for better control''],
           poor_frames = []\<rparr>)"
proof -
  have f0: "False \<longleftrightarrow> get_default (snd (extract_comprehensive_features [] squat_low))
      ''right_knee_angle_velocity'' 0 > 100"
    using first_frame_slow [of squat_low] by simp
  have f1: "True \<longleftrightarrow> get_default (snd (extract_comprehensive_features
        (deque_append 30 [] (angles_of squat_low)) squat_high))
      ''right_knee_angle_velocity'' 0 > 100"
    using later_frame_fast [of "deque_append 30 [] (angles_of squat_low)" squat_low squat_high]
      knee_jump
    by (simp add: deque_append_def)
  note a0 = analyse_frame_squat [OF squat_low_conditions f0, of 0 running_init]
  note a1 = analyse_frame_squat [OF squat_high_conditions f1, of "Suc (Suc (Suc 0))"]
  have c: "cap_frames two_squats = [Some squat_low, None, None, Some squat_high]"
    by (simp add: two_squats_def)
  show ?thesis
    unfolding c process_two [OF a0 a1]
    by (simp add: deque_append_def running_init_def)
qed

lemma second_run:
  "process_frames 0 (cap_frames two_squats)
       ([angles_of squat_low, angles_of squat_high], running_init) =
     ([angles_of squat_low, angles_of squat_high, angles_of squat_low, angles_of squat_high],
      Inr \<lparr>exercise_votes = [(''squat'', 2)], analyzed = 2, scores = [90, 90],
           issues_seen = [''Moving too quickly'', ''Moving too quickly''],
           recommendations_seen = [''Slow down for better control'', ''Slow down for better control''],
           poor_frames = []\<rparr>)"
proof -
  let ?h = "[angles_of squat_low, angles_of squat_high]"
  have f0: "True \<longleftrightarrow> get_default (snd (extract_comprehensive_features ?h squat_low))
      ''right_knee_angle_velocity'' 0 > 100"
    using later_frame_fast [of ?h squat_high squat_low] knee_jump by simp
  have f1: "True \<longleftrightarrow> get_default (snd (extract_comprehensive_features
        (deque_append 30 ?h (angles_of squat_low)) squat_high))
      ''right_knee_angle_velocity'' 0 > 100"
    using later_frame_fast [of "deque_append 30 ?h (angles_of squat_low)" squat_low squat_high]
      knee_jump
    by (simp add: deque_append_def)
  note a0 = analyse_frame_squat [OF squat_low_conditions f0, of 0 running_init]
  note a1 = analyse_frame_squat [OF squat_high_conditions f1, of "Suc (Suc (Suc 0))"]
  have c: "cap_frames two_squats = [Some squat_low, None, None, Some squat_high]"
    by (simp add: two_squats_def)
  show ?thesis
    unfolding c process_two [OF a0 a1]
    by (simp add: deque_append_def running_init_def)
qed

lemma analyze_twice_two_squats:
  "analyze_twice [] two_squats =
     (Inr (summarise two_squats
             \<lparr>exercise_votes = [(''squat'', 2)], analyzed = 2, scores = [100, 90],
              issues_seen = [''Moving too quickly''],
              recommendations_seen = [''Slow down for better control''],
              poor_frames = []\<rparr> (''squat'', 2)),
      Inr (summarise two_squats
             \<lparr>exercise_votes = [(''squat'', 2)], analyzed = 2, scores = [90, 90],
              issues_seen = [''Moving too quickly'', ''Moving too quickly''],
              recommendations_seen = [''Slow down for better control'', ''Slow down for better control''],
              poor_frames = []\<rparr> (''squat'', 2)))"
proof -
  have o: "is_opened two_squats" by (simp add: two_squats_def)
  have m: "max_by_count [(''squat'', 2)] = Some (''squat'', 2)"
    by (simp add: max_by_count_def)
  show ?thesis
    by (simp add: analyze_twice_def analyze_video_def o first_run second_run m)
qed

text \<open>
  C8. The aggregator is run twice in succession, from a freshly loaded module (empty
  angle history), on a four-frame video whose sampled frames 0 and 3 show two squat poses
  with knee angles 90 and 130. In the first run frame 0 has no predecessor and scores
  100; in the second run the angle history still ends with the last pose of the first
  run, frame 0 gets a knee velocity of 1200 degrees per second and the penalty for moving
  too quickly, and scores 90. The two records differ in the form scores and in the
  overall score.
\<close>

theorem second_run_differs:
  "map_sum id form_scores (fst (analyze_twice [] two_squats)) = Inr [100, 90] \<and>
   map_sum id form_scores (snd (analyze_twice [] two_squats)) = Inr [90, 90] \<and>
   map_sum id session_overall_score (fst (analyze_twice [] two_squats)) = Inr 95 \<and>
   map_sum id session_overall_score (snd (analyze_twice [] two_squats)) = Inr 90 \<and>
   fst (analyze_twice [] two_squats) \<noteq> snd (analyze_twice [] two_squats)"
  unfolding analyze_twice_two_squats
  by (simp add: summarise_def py_int_def)

end
